theory Spec2Isabelle
  imports Main "HOL-Library.Word" "HOL-Library.AList"
begin

unbundle bit_operations_syntax

section \<open>Values, the process environment and the store client\<close>

text \<open>
  A JavaScript value as far as the adapters look at it: they test a value for
  truthiness and otherwise pass it on unchanged. A \<open>Buffer\<close> is a list of bytes.
\<close>

type_synonym byte = "8 word"

datatype jsval =
    JNull
  | JUndefined
  | JBool bool
  | JNum int
  | JStr string
  | JBytes "byte list"
  | JArr "jsval list"
  | JObj "(string \<times> jsval) list"

text \<open>JavaScript truthiness: what \<open>if (v)\<close>, \<open>!v\<close>, \<open>v ? a : b\<close> and \<open>v || w\<close> test.\<close>

fun truthy :: "jsval \<Rightarrow> bool" where
  "truthy JNull = False"
| "truthy JUndefined = False"
| "truthy (JBool b) = b"
| "truthy (JNum n) = (n \<noteq> 0)"
| "truthy (JStr s) = (s \<noteq> [])"
| "truthy (JBytes _) = True"
| "truthy (JArr _) = True"
| "truthy (JObj _) = True"

text \<open>
  What comes back of a value that went through a JSON body
  (\<open>JSON.parse(JSON.stringify(v))\<close>), as every \<open>key_data\<close> does on its way into the
  JSONB column: a \<open>Buffer\<close> becomes the object \<open>{ type: 'Buffer', data: [...] }\<close>, a
  member that is \<open>undefined\<close> is left out of its object, and \<open>undefined\<close> in an array
  (or alone) becomes \<open>null\<close>. The members of an object are kept in their order.
\<close>

fun json_of :: "jsval \<Rightarrow> jsval" where
  "json_of JNull = JNull"
| "json_of JUndefined = JNull"
| "json_of (JBool b) = JBool b"
| "json_of (JNum n) = JNum n"
| "json_of (JStr s) = JStr s"
| "json_of (JBytes bs) =
     JObj [(''type'', JStr ''Buffer''), (''data'', JArr (map (\<lambda>b. JNum (uint b)) bs))]"
| "json_of (JArr xs) = JArr (map json_of xs)"
| "json_of (JObj kvs) =
     JObj (concat (map (\<lambda>kv. if snd kv = JUndefined then [] else [(fst kv, json_of (snd kv))]) kvs))"

text \<open>
  What a request to the store client can do besides answering: resolve with
  \<open>{ error }\<close> set, or reject (throw). The source handles the two separately
  (\<open>if (error)\<close> and \<open>catch (e)\<close>).
\<close>

datatype fault = NoFault | ReturnsError string | Rejects string

datatype stat = IsDirectory | NotDirectory | StatThrows string

datatype request =
    Select string string
  | Upsert string string jsval
  | Delete string string
  | DeleteAll string
  | Upload string "byte list" string bool
  | CreateSignedUrl string nat
  | Download string
  | ListObjects string
  | RemoveObjects "string list"
  | SelectSessions

text \<open>A request is started, and later it completes; requests started together
  complete in an order of their own.\<close>

datatype event = Start request | Finish request

text \<open>The client object made by \<open>createClient(url, key, { auth: ... })\<close>;
  \<open>serial\<close> tells two constructed clients apart.\<close>

record client =
  serial :: nat
  url :: string
  service_key :: string
  autoRefreshToken :: bool
  persistSession :: bool

text \<open>
  The process and its backend: the environment variables, the module variable
  \<open>supabaseClient\<close>, the table \<open>wa_auth_keys\<close> (primary key session id and key id),
  the storage bucket (path to bytes and content type), the fault each request
  meets, the requests issued so far, the console, the position in the stream
  of random bytes, the URL the storage service signs for a path and a validity,
  the rows of the catalog \<open>wa_sessions\<close> (session id and status, which may be
  NULL), the local folder \<open>sessions\<close> (absent, or its entries with what
  \<open>fs.statSync\<close> does for each), the events of all requests in the order in which
  they happen, the order in which requests that were started together complete
  (as positions in the list of those requests), and the path the storage
  service names in its answer to an upload (\<open>data.path\<close>).
\<close>

record world =
  env :: "string \<rightharpoonup> string"
  supabaseClient :: "client option"
  clients_made :: nat
  auth_keys :: "(string \<times> string) \<rightharpoonup> jsval"
  bucket :: "(string \<times> (byte list \<times> string)) list"
  fault_of :: "request \<Rightarrow> fault"
  requests :: "request list"
  console :: "string list"
  random_source :: "nat \<Rightarrow> byte"
  random_pos :: nat
  signed_url :: "string \<Rightarrow> nat \<Rightarrow> string"
  wa_sessions :: "(string \<times> string option) list"
  sessions_folder :: "(string \<times> stat) list option"
  timeline :: "event list"
  completion_order :: "request list \<Rightarrow> nat list"
  upload_path :: "string \<Rightarrow> string"

datatype error = Error string

subsection \<open>SupabaseClient.js\<close>

text \<open>\<open>process.env.X\<close> read for truthiness: unset and the empty string are both falsy.\<close>

definition env_truthy :: "world \<Rightarrow> string \<Rightarrow> bool" where
  "env_truthy w k = (case env w k of None \<Rightarrow> False | Some v \<Rightarrow> v \<noteq> [])"

definition createClient :: "string \<Rightarrow> string \<Rightarrow> world \<Rightarrow> client \<times> world" where
  "createClient u k w =
     (\<lparr>serial = clients_made w, url = u, service_key = k,
        autoRefreshToken = False, persistSession = False\<rparr>,
      w\<lparr>clients_made := Suc (clients_made w)\<rparr>)"

definition getSupabaseClient :: "world \<Rightarrow> (error + client) \<times> world" where
  "getSupabaseClient w =
     (case supabaseClient w of
        Some c \<Rightarrow> (Inr c, w)
      | None \<Rightarrow>
          if \<not> env_truthy w ''SUPABASE_URL'' \<or> \<not> env_truthy w ''SUPABASE_SERVICE_KEY''
          then (Inl (Error ''SUPABASE_URL and SUPABASE_SERVICE_KEY must be set in environment variables''), w)
          else (let (c, w') = createClient (the (env w ''SUPABASE_URL''))
                                 (the (env w ''SUPABASE_SERVICE_KEY'')) w
                in (Inr c, w'\<lparr>supabaseClient := Some c\<rparr>)))"

definition getStorageBucket :: "world \<Rightarrow> string" where
  "getStorageBucket w =
     (if env_truthy w ''SUPABASE_STORAGE_BUCKET'' then the (env w ''SUPABASE_STORAGE_BUCKET'')
      else ''chatery-media'')"

definition isSupabaseConfigured :: "world \<Rightarrow> bool" where
  "isSupabaseConfigured w =
     (env_truthy w ''SUPABASE_URL'' \<and> env_truthy w ''SUPABASE_SERVICE_KEY'')"

subsection \<open>SupabaseAuthState.js\<close>

text \<open>
  A request is recorded in \<open>requests\<close> and in the \<open>timeline\<close> when it is started,
  and in the \<open>timeline\<close> again when it completes. A request that is awaited by
  itself completes before anything else happens (\<open>issue\<close>). Console lines are kept
  without their emoji and counts.
\<close>

definition start :: "request \<Rightarrow> world \<Rightarrow> world" where
  "start r w = w\<lparr>requests := requests w @ [r], timeline := timeline w @ [Start r]\<rparr>"

definition finish :: "request \<Rightarrow> world \<Rightarrow> world" where
  "finish r w = w\<lparr>timeline := timeline w @ [Finish r]\<rparr>"

definition issue :: "request \<Rightarrow> world \<Rightarrow> world" where
  "issue r w = finish r (start r w)"

definition console_log :: "string \<Rightarrow> world \<Rightarrow> world" where
  "console_log s w = w\<lparr>console := console w @ [s]\<rparr>"

text \<open>
  Requests started together (\<open>Promise.all\<close>) complete in the order the
  environment gives as a list of positions; a list that is no arrangement of the
  positions stands for the order of starting.
\<close>

definition arrival :: "world \<Rightarrow> request list \<Rightarrow> nat list" where
  "arrival w rs =
     (if sort (completion_order w rs) = [0..<length rs] then completion_order w rs
      else [0..<length rs])"

text \<open>A list with one element per request of \<open>rs\<close>, in the order in which the
  requests complete.\<close>

definition completed :: "world \<Rightarrow> request list \<Rightarrow> 'a list \<Rightarrow> 'a list" where
  "completed w rs xs = map (\<lambda>j. xs ! j) (arrival w rs)"

text \<open>
  What \<open>readData\<close> returns for its select: \<open>.single()\<close> answers with an error
  when no row matches, so a missing row, an error answer and a rejected request
  all give \<open>null\<close>.
\<close>

definition read_answer :: "world \<Rightarrow> string \<Rightarrow> string \<Rightarrow> jsval" where
  "read_answer w sid keyId =
     (case fault_of w (Select sid keyId) of
        Rejects e \<Rightarrow> JNull
      | ReturnsError e \<Rightarrow> JNull
      | NoFault \<Rightarrow>
          (case auth_keys w (sid, keyId) of
             None \<Rightarrow> JNull
           | Some v \<Rightarrow> v))"

definition readData :: "string \<Rightarrow> string \<Rightarrow> world \<Rightarrow> jsval \<times> world" where
  "readData sid keyId w = (read_answer w sid keyId, issue (Select sid keyId) w)"

definition write_error :: "string \<Rightarrow> string \<Rightarrow> string \<Rightarrow> string" where
  "write_error sid keyId m = ''['' @ sid @ ''] Error writing auth key '' @ keyId @ '': '' @ m"

text \<open>
  \<open>writeData\<close> after its \<open>await\<close>: the upsert has completed. The value arrives as
  JSON; the column \<open>key_data\<close> is \<open>JSONB NOT NULL\<close>, so a \<open>null\<close> is answered with
  an error. An error answer and a rejection are both logged.
\<close>

definition writeData_done :: "string \<Rightarrow> string \<Rightarrow> jsval \<Rightarrow> world \<Rightarrow> world" where
  "writeData_done sid keyId json w =
     (let r = Upsert sid keyId json; w1 = finish r w in
      case fault_of w r of
        NoFault \<Rightarrow>
          if json = JNull
          then console_log (write_error sid keyId ''null value in column key_data'') w1
          else w1\<lparr>auth_keys := (auth_keys w1)((sid, keyId) \<mapsto> json)\<rparr>
      | ReturnsError m \<Rightarrow> console_log (write_error sid keyId m) w1
      | Rejects m \<Rightarrow> console_log (write_error sid keyId m) w1)"

definition writeData :: "string \<Rightarrow> string \<Rightarrow> jsval \<Rightarrow> world \<Rightarrow> world" where
  "writeData sid keyId keyData w =
     writeData_done sid keyId (json_of keyData) (start (Upsert sid keyId (json_of keyData)) w)"

text \<open>\<open>removeData\<close> after its \<open>await\<close>: it does not look at the answer, and its
  \<open>catch\<close> is empty.\<close>

definition removeData_done :: "string \<Rightarrow> string \<Rightarrow> world \<Rightarrow> world" where
  "removeData_done sid keyId w =
     (let r = Delete sid keyId; w1 = finish r w in
      case fault_of w r of
        NoFault \<Rightarrow> w1\<lparr>auth_keys := (auth_keys w1)((sid, keyId) := None)\<rparr>
      | ReturnsError m \<Rightarrow> w1
      | Rejects m \<Rightarrow> w1)"

definition removeData :: "string \<Rightarrow> string \<Rightarrow> world \<Rightarrow> world" where
  "removeData sid keyId w = removeData_done sid keyId (start (Delete sid keyId) w)"

definition clearAll :: "string \<Rightarrow> world \<Rightarrow> world" where
  "clearAll sid w =
     (let r = DeleteAll sid; w1 = issue r w in
      case fault_of w r of
        NoFault \<Rightarrow> w1\<lparr>auth_keys := (\<lambda>(s, k). if s = sid then None else auth_keys w1 (s, k))\<rparr>
      | ReturnsError m \<Rightarrow> w1
      | Rejects m \<Rightarrow> w1)"

text \<open>
  What lies outside the repository. Of the protocol library: its default export
  (when it has a truthy one) and the module object itself, each with the property
  \<open>Curve\<close> it may have, and \<open>proto.Message.AppStateSyncKeyData.fromObject\<close>, which
  may throw. Of the platform: base64 encoding of a buffer.
\<close>

record curve =
  publicKey :: "byte list \<Rightarrow> byte list"
  sign :: "byte list \<Rightarrow> byte list \<Rightarrow> byte list"

record exports =
  exp_Curve :: "curve option"

record engine =
  default_export :: "exports option"
  module_exports :: exports
  base64 :: "byte list \<Rightarrow> string"
  fromObject :: "jsval \<Rightarrow> error + jsval"

text \<open>\<open>const { Curve, signedKeyPair } = require(lib).default || require(lib)\<close>:
  with a default export, \<open>Curve\<close> is looked up there.\<close>

definition required_Curve :: "engine \<Rightarrow> curve option" where
  "required_Curve E =
     (case default_export E of
        Some d \<Rightarrow> exp_Curve d
      | None \<Rightarrow> exp_Curve (module_exports E))"

definition randomBytes :: "nat \<Rightarrow> world \<Rightarrow> byte list \<times> world" where
  "randomBytes n w =
     (map (random_source w) [random_pos w ..< random_pos w + n],
      w\<lparr>random_pos := random_pos w + n\<rparr>)"

definition readUInt16BE :: "byte list \<Rightarrow> 16 word" where
  "readUInt16BE bs = push_bit 8 (ucast (bs ! 0)) OR ucast (bs ! 1)"

text \<open>\<open>generateKeyPair\<close> draws the private key first; \<open>Curve.publicKey\<close> on an
  undefined \<open>Curve\<close> is a TypeError.\<close>

definition generateKeyPair ::
  "curve option \<Rightarrow> world \<Rightarrow> (error + byte list \<times> byte list) \<times> world" where
  "generateKeyPair C w =
     (let (privateKey, w1) = randomBytes 32 w in
      case C of
        None \<Rightarrow> (Inl (Error ''TypeError: Cannot read properties of undefined (reading publicKey)''), w1)
      | Some c \<Rightarrow> (Inr (privateKey, publicKey c privateKey), w1))"

definition keyPair_object :: "byte list \<times> byte list \<Rightarrow> jsval" where
  "keyPair_object kp = JObj [(''private'', JBytes (fst kp)), (''public'', JBytes (snd kp))]"

definition generateSignedKeyPair ::
  "curve option \<Rightarrow> byte list \<times> byte list \<Rightarrow> world \<Rightarrow> (error + jsval) \<times> world" where
  "generateSignedKeyPair C identityKeyPair w =
     (let (b, w1) = randomBytes 2 w;
          keyId = readUInt16BE b AND 0xFFFF in
      case generateKeyPair C w1 of
        (Inl e, w2) \<Rightarrow> (Inl e, w2)
      | (Inr keyPair, w2) \<Rightarrow>
          (case C of
             None \<Rightarrow> (Inl (Error ''TypeError: Cannot read properties of undefined (reading sign)''), w2)
           | Some c \<Rightarrow>
               (Inr (JObj [(''keyId'', JNum (uint keyId)),
                           (''keyPair'', keyPair_object keyPair),
                           (''signature'', JBytes (sign c (fst identityKeyPair) (snd keyPair)))]),
                w2)))"

definition initAuthCreds :: "engine \<Rightarrow> world \<Rightarrow> (error + jsval) \<times> world" where
  "initAuthCreds E w =
     (let C = required_Curve E in
      case generateKeyPair C w of
        (Inl e, w1) \<Rightarrow> (Inl e, w1)
      | (Inr identityKey, w1) \<Rightarrow>
      (case generateKeyPair C w1 of
        (Inl e, w2) \<Rightarrow> (Inl e, w2)
      | (Inr noiseKey, w2) \<Rightarrow>
      (case generateKeyPair C w2 of
        (Inl e, w3) \<Rightarrow> (Inl e, w3)
      | (Inr pairingEphemeralKeyPair, w3) \<Rightarrow>
      (case generateSignedKeyPair C identityKey w3 of
        (Inl e, w4) \<Rightarrow> (Inl e, w4)
      | (Inr signedPreKey, w4) \<Rightarrow>
          (let (r, w5) = randomBytes 2 w4;
               (adv, w6) = randomBytes 32 w5
           in (Inr (JObj [(''noiseKey'', keyPair_object noiseKey),
                (''pairingEphemeralKeyPair'', keyPair_object pairingEphemeralKeyPair),
                (''signedIdentityKey'', keyPair_object identityKey),
                (''signedPreKey'', signedPreKey),
                (''registrationId'', JNum (uint (readUInt16BE r AND 16383))),
                (''advSecretKey'', JStr (base64 E adv)),
                (''processedHistoryMessages'', JArr []),
                (''nextPreKeyId'', JNum 1),
                (''firstUnuploadedPreKeyId'', JNum 1),
                (''accountSyncCounter'', JNum 0),
                (''accountSettings'', JObj [(''unarchiveChats'', JBool False)]),
                (''registered'', JBool False),
                (''pairingCode'', JUndefined),
                (''lastPropHash'', JUndefined),
                (''routingInfo'', JUndefined)]), w6))))))"

text \<open>What \<open>useSupabaseAuthState\<close> returns: the closures share the session id
  and the \<open>creds\<close> object.\<close>

record auth_state =
  a_session :: string
  creds :: jsval

definition useSupabaseAuthState ::
  "engine \<Rightarrow> string \<Rightarrow> world \<Rightarrow> (error + auth_state) \<times> world" where
  "useSupabaseAuthState E sid w =
     (case getSupabaseClient w of
        (Inl e, w0) \<Rightarrow> (Inl e, w0)
      | (Inr c, w0) \<Rightarrow>
          (let (v, w1) = readData sid ''creds'' w0 in
           if truthy v then (Inr \<lparr>a_session = sid, creds = v\<rparr>, w1)
           else (case initAuthCreds E w1 of
                   (Inl e, w2) \<Rightarrow> (Inl e, w2)
                 | (Inr fresh, w2) \<Rightarrow> (Inr \<lparr>a_session = sid, creds = fresh\<rparr>, w2))))"

text \<open>
  \<open>keys.get\<close> builds its result in the object \<open>data = {}\<close>: the entries it has of
  its own, and its prototype once that has been replaced. \<open>data[id] = value\<close>
  makes an entry, except for the id \<open>__proto__\<close>, where it replaces the prototype
  when the value is an object or \<open>null\<close> and does nothing otherwise.
\<close>

record lookup =
  own :: "string \<rightharpoonup> jsval"
  prototype :: "jsval option"

definition is_object :: "jsval \<Rightarrow> bool" where
  "is_object v = (case v of JBytes _ \<Rightarrow> True | JArr _ \<Rightarrow> True | JObj _ \<Rightarrow> True | _ \<Rightarrow> False)"

definition assign :: "string \<Rightarrow> jsval \<Rightarrow> lookup \<Rightarrow> lookup" where
  "assign i v d =
     (if i = ''__proto__''
      then (if is_object v \<or> v = JNull then d\<lparr>prototype := Some v\<rparr> else d)
      else d\<lparr>own := (own d)(i \<mapsto> v)\<rparr>)"

text \<open>The value of one lookup after its read: the typed reconstruction for the
  one category, which may throw.\<close>

definition reconstruct :: "engine \<Rightarrow> string \<Rightarrow> jsval \<Rightarrow> error + jsval" where
  "reconstruct E type v =
     (if type = ''app-state-sync-key'' \<and> truthy v then fromObject E v else Inr v)"

text \<open>The lookups in the order in which they complete: the first one that throws
  rejects \<open>Promise.all\<close> and with it \<open>keys.get\<close>.\<close>

fun collect :: "(string \<times> (error + jsval)) list \<Rightarrow> lookup \<Rightarrow> error + lookup" where
  "collect [] d = Inr d"
| "collect ((i, Inl e) # rest) d = Inl e"
| "collect ((i, Inr v) # rest) d = collect rest (assign i v d)"

definition keys_get ::
  "engine \<Rightarrow> auth_state \<Rightarrow> string \<Rightarrow> string list \<Rightarrow> world \<Rightarrow> (error + lookup) \<times> world" where
  "keys_get E a type ids w =
     (let rs = map (\<lambda>i. Select (a_session a) (type @ ''-'' @ i)) ids;
          w1 = fold start rs w;
          w2 = fold finish (completed w rs rs) w1
      in (collect
            (map (\<lambda>i. (i, reconstruct E type (read_answer w (a_session a) (type @ ''-'' @ i))))
               (completed w rs ids))
            \<lparr>own = Map.empty, prototype = None\<rparr>,
          w2))"

text \<open>
  \<open>keys.set\<close>: the triples in the order of the two \<open>for ... in\<close> loops, and the
  request the task of a triple makes. All tasks are started in the loops; then
  \<open>Promise.all\<close> waits, and each task goes on after its own request has completed.
\<close>

definition triples :: "(string \<times> (string \<times> jsval) list) list \<Rightarrow> (string \<times> string \<times> jsval) list" where
  "triples upd = concat (map (\<lambda>ce. map (\<lambda>iv. (fst ce, iv)) (snd ce)) upd)"

definition key_of :: "string \<times> string \<times> jsval \<Rightarrow> string" where
  "key_of t = fst t @ ''-'' @ fst (snd t)"

definition set_request :: "string \<Rightarrow> string \<times> string \<times> jsval \<Rightarrow> request" where
  "set_request sid t =
     (if truthy (snd (snd t)) then Upsert sid (key_of t) (json_of (snd (snd t)))
      else Delete sid (key_of t))"

definition task_done :: "request \<Rightarrow> world \<Rightarrow> world" where
  "task_done r w =
     (case r of
        Upsert sid keyId json \<Rightarrow> writeData_done sid keyId json w
      | Delete sid keyId \<Rightarrow> removeData_done sid keyId w
      | _ \<Rightarrow> w)"

definition keys_set ::
  "auth_state \<Rightarrow> (string \<times> (string \<times> jsval) list) list \<Rightarrow> world \<Rightarrow> world" where
  "keys_set a upd w =
     (let rs = map (set_request (a_session a)) (triples upd);
          w1 = fold start rs w
      in fold task_done (completed w rs rs) w1)"

definition saveCreds :: "auth_state \<Rightarrow> world \<Rightarrow> world" where
  "saveCreds a w = writeData (a_session a) ''creds'' (creds a) w"

definition deleteSupabaseAuthState :: "string \<Rightarrow> world \<Rightarrow> (error + unit) \<times> world" where
  "deleteSupabaseAuthState sid w =
     (case getSupabaseClient w of
        (Inl e, w0) \<Rightarrow> (Inl e, w0)
      | (Inr c, w0) \<Rightarrow>
          (let r = DeleteAll sid; w1 = issue r w0 in
           case fault_of w0 r of
             NoFault \<Rightarrow>
               (Inr (), console_log (''['' @ sid @ ''] Auth keys deleted from Supabase'')
                  (w1\<lparr>auth_keys := (\<lambda>(s, k). if s = sid then None else auth_keys w1 (s, k))\<rparr>))
           | ReturnsError m \<Rightarrow>
               (Inr (), console_log (''['' @ sid @ ''] Auth keys deleted from Supabase'') w1)
           | Rejects m \<Rightarrow>
               (Inr (), console_log (''['' @ sid @ ''] Error deleting auth keys: '' @ m) w1)))"

subsection \<open>SupabaseStorage (part 001)\<close>

record storage =
  st_sessionId :: string
  st_bucket :: string

definition new_storage :: "string \<Rightarrow> world \<Rightarrow> (error + storage) \<times> world" where
  "new_storage sid w =
     (case getSupabaseClient w of
        (Inl e, w0) \<Rightarrow> (Inl e, w0)
      | (Inr c, w0) \<Rightarrow> (Inr \<lparr>st_sessionId = sid, st_bucket = getStorageBucket w0\<rparr>, w0))"

definition getStoragePath :: "storage \<Rightarrow> string \<Rightarrow> string \<Rightarrow> string" where
  "getStoragePath st messageId extension = st_sessionId st @ ''/'' @ messageId @ extension"

datatype upload_result =
    Uploaded string "string option"
  | UploadFailed string

text \<open>The upload is requested for \<open>storagePath\<close>; the path of the result is the
  \<open>data.path\<close> of the answer, which is where the service has put the object.\<close>

definition uploadMedia ::
  "storage \<Rightarrow> string \<Rightarrow> byte list \<Rightarrow> string \<Rightarrow> string \<Rightarrow> world \<Rightarrow> upload_result \<times> world" where
  "uploadMedia st messageId buffer mimeType extension w =
     (let storagePath = getStoragePath st messageId extension;
          r = Upload storagePath buffer mimeType True;
          w1 = issue r w in
      case fault_of w r of
        Rejects m \<Rightarrow>
          (UploadFailed m, console_log (''['' @ st_sessionId st @ ''] Upload error: '' @ m) w1)
      | ReturnsError m \<Rightarrow>
          (UploadFailed m, console_log (''['' @ st_sessionId st @ ''] Storage upload error: '' @ m) w1)
      | NoFault \<Rightarrow>
          (let data_path = upload_path w storagePath;
               w2 = w1\<lparr>bucket := AList.update data_path (buffer, mimeType) (bucket w1)\<rparr>;
               r2 = CreateSignedUrl storagePath 3600;
               w3 = issue r2 w2 in
           case fault_of w r2 of
             Rejects m \<Rightarrow>
               (UploadFailed m, console_log (''['' @ st_sessionId st @ ''] Upload error: '' @ m) w3)
           | ReturnsError m \<Rightarrow>
               (Uploaded data_path None,
                console_log (''['' @ st_sessionId st @ ''] Error creating signed URL: '' @ m) w3)
           | NoFault \<Rightarrow>
               (Uploaded data_path (Some (signed_url w storagePath 3600)),
                console_log (''['' @ st_sessionId st @ ''] Media uploaded: '' @ storagePath) w3)))"

definition getMediaUrl :: "storage \<Rightarrow> string \<Rightarrow> string \<Rightarrow> nat \<Rightarrow> world \<Rightarrow> string option \<times> world" where
  "getMediaUrl st messageId extension expiresIn w =
     (let storagePath = getStoragePath st messageId extension;
          r = CreateSignedUrl storagePath expiresIn;
          w1 = issue r w in
      case fault_of w r of
        NoFault \<Rightarrow> (Some (signed_url w storagePath expiresIn), w1)
      | ReturnsError m \<Rightarrow> (None, w1)
      | Rejects m \<Rightarrow> (None, w1))"

definition deleteMedia :: "storage \<Rightarrow> string \<Rightarrow> string \<Rightarrow> world \<Rightarrow> world" where
  "deleteMedia st messageId extension w =
     (let storagePath = getStoragePath st messageId extension;
          r = RemoveObjects [storagePath];
          w1 = issue r w in
      case fault_of w r of
        NoFault \<Rightarrow>
          console_log (''['' @ st_sessionId st @ ''] Media deleted: '' @ storagePath)
            (w1\<lparr>bucket := AList.delete storagePath (bucket w1)\<rparr>)
      | ReturnsError m \<Rightarrow> w1
      | Rejects m \<Rightarrow> w1)"

text \<open>\<open>.list(folder)\<close>: the names directly under the folder (a deeper path shows
  as its first segment).\<close>

definition list_folder :: "string \<Rightarrow> world \<Rightarrow> string list" where
  "list_folder folder w =
     remdups (map (\<lambda>p. takeWhile (\<lambda>c. c \<noteq> CHR ''/'') (drop (length folder + 1) p))
       (filter (\<lambda>p. take (length folder + 1) p = folder @ ''/'') (map fst (bucket w))))"

definition deleteAllMedia :: "storage \<Rightarrow> world \<Rightarrow> world" where
  "deleteAllMedia st w =
     (let r = ListObjects (st_sessionId st); w1 = issue r w in
      case fault_of w r of
        Rejects m \<Rightarrow>
          console_log (''['' @ st_sessionId st @ ''] Error deleting all media: '' @ m) w1
      | ReturnsError m \<Rightarrow> w1
      | NoFault \<Rightarrow>
          (let files = list_folder (st_sessionId st) w in
           if files = [] then w1
           else (let paths = map (\<lambda>name. st_sessionId st @ ''/'' @ name) files;
                     r2 = RemoveObjects paths;
                     w2 = issue r2 w1 in
                 case fault_of w r2 of
                   Rejects m \<Rightarrow>
                     console_log (''['' @ st_sessionId st @ ''] Error deleting all media: '' @ m) w2
                 | ReturnsError m \<Rightarrow> w2
                 | NoFault \<Rightarrow>
                     console_log (''['' @ st_sessionId st @ ''] All media deleted'')
                       (w2\<lparr>bucket := filter (\<lambda>(p, _). p \<notin> set paths) (bucket w2)\<rparr>))))"

definition getExtensionFromMime :: "string \<Rightarrow> string" where
  "getExtensionFromMime mimeType =
     (case map_of
        [(''image/jpeg'', ''.jpg''), (''image/png'', ''.png''), (''image/gif'', ''.gif''),
         (''image/webp'', ''.webp''), (''video/mp4'', ''.mp4''), (''video/3gpp'', ''.3gp''),
         (''audio/ogg'', ''.ogg''), (''audio/mpeg'', ''.mp3''), (''audio/mp4'', ''.m4a''),
         (''application/pdf'', ''.pdf''), (''application/msword'', ''.doc''),
         (''application/vnd.openxmlformats-officedocument.wordprocessingml.document'', ''.docx''),
         (''application/vnd.ms-excel'', ''.xls''),
         (''application/vnd.openxmlformats-officedocument.spreadsheetml.sheet'', ''.xlsx'')]
        mimeType of
        Some e \<Rightarrow> e
      | None \<Rightarrow> '''')"

definition downloadMedia :: "storage \<Rightarrow> string \<Rightarrow> string \<Rightarrow> world \<Rightarrow> byte list option \<times> world" where
  "downloadMedia st messageId extension w =
     (let storagePath = getStoragePath st messageId extension;
          r = Download storagePath;
          w1 = issue r w in
      case fault_of w r of
        Rejects m \<Rightarrow> (None, w1)
      | ReturnsError m \<Rightarrow> (None, w1)
      | NoFault \<Rightarrow>
          (case map_of (bucket w) storagePath of
             Some (bytes, mime) \<Rightarrow> (Some bytes, w1)
           | None \<Rightarrow> (None, w1)))"

subsection \<open>WhatsAppSession (the session handle)\<close>

datatype status = Disconnected | Connecting | Connected | LoggedOut

record webhook =
  target :: string
  events :: "string list"

record options =
  opt_metadata :: "(string \<times> jsval) list option"
  opt_webhooks :: "webhook list option"

record handle =
  sessionId :: string
  connectionStatus :: status
  metadata :: "(string \<times> jsval) list"
  webhooks :: "webhook list"

record info =
  info_id :: string
  info_status :: status
  info_metadata :: "(string \<times> jsval) list"
  info_webhooks :: "webhook list"

text \<open>What the protocol engine does with a connection attempt of a session.\<close>

datatype outcome = Opens | Pending | Fails

text \<open>
  The registry \<open>WhatsAppManager\<close> and what its handles act on: \<open>sessions\<close> is the
  \<open>Map\<close> from id to handle in insertion order; \<open>constructed\<close> counts the handles
  made by \<open>new WhatsAppSession\<close>; \<open>connect_calls\<close> lists the ids whose handle was told
  to \<open>connect()\<close>; \<open>attempts\<close> lists the ids for which a connection attempt was
  started; \<open>saved_configs\<close> holds the persisted configs; \<open>connect_error\<close> names the
  error with which \<open>connect()\<close> of a session rejects at startup, if it does.
\<close>

record manager =
  sessions :: "(string \<times> handle) list"
  useSupabase :: bool
  constructed :: nat
  connect_calls :: "string list"
  attempts :: "string list"
  saved_configs :: "string \<rightharpoonup> ((string \<times> jsval) list \<times> webhook list)"
  attempt_outcome :: "string \<Rightarrow> outcome"
  backend :: world
  connect_error :: "string \<Rightarrow> string option"

text \<open>Modelled from the spec: the constructor of \<open>WhatsAppSession\<close>, whose file is not
  among the sources: a handle starts \<open>disconnected\<close> with the metadata and webhooks
  of its options, or empty ones.\<close>

definition new_session :: "string \<Rightarrow> options \<Rightarrow> handle" where
  "new_session sid opts =
     \<lparr>sessionId = sid, connectionStatus = Disconnected,
      metadata = (case opt_metadata opts of Some md \<Rightarrow> md | None \<Rightarrow> []),
      webhooks = (case opt_webhooks opts of Some ws \<Rightarrow> ws | None \<Rightarrow> [])\<rparr>"

text \<open>Modelled from the spec: \<open>WhatsAppSession.getInfo\<close>, a snapshot of id, status,
  metadata and webhooks.\<close>

definition getInfo :: "handle \<Rightarrow> info" where
  "getInfo h =
     \<lparr>info_id = sessionId h, info_status = connectionStatus h,
      info_metadata = metadata h, info_webhooks = webhooks h\<rparr>"

text \<open>Modelled from the spec: \<open>WhatsAppSession._saveConfig\<close>, which persists the
  handle's config.\<close>

definition saveConfig :: "handle \<Rightarrow> manager \<Rightarrow> manager" where
  "saveConfig h m =
     m\<lparr>saved_configs := (saved_configs m)(sessionId h \<mapsto> (metadata h, webhooks h))\<rparr>"

text \<open>Modelled from the spec: \<open>WhatsAppSession.updateConfig\<close> merges the supplied
  metadata and webhook fields into the handle's record and persists the merged
  config; the connection state stays.\<close>

definition updateConfig :: "options \<Rightarrow> handle \<Rightarrow> manager \<Rightarrow> handle \<times> manager" where
  "updateConfig opts h m =
     (let h' = h\<lparr>metadata := (case opt_metadata opts of
                                Some md \<Rightarrow> AList.merge (metadata h) md
                              | None \<Rightarrow> metadata h),
                 webhooks := (case opt_webhooks opts of
                                Some ws \<Rightarrow> ws
                              | None \<Rightarrow> webhooks h)\<rparr>
      in (h', saveConfig h' m))"

text \<open>Modelled from the spec: \<open>WhatsAppSession.connect\<close>. A handle that is
  \<open>connecting\<close> or \<open>connected\<close> starts no second attempt; otherwise an attempt
  starts, and an unrecoverable error of the engine surfaces as \<open>disconnected\<close>.\<close>

definition connect :: "handle \<Rightarrow> manager \<Rightarrow> handle \<times> manager" where
  "connect h m =
     (let m1 = m\<lparr>connect_calls := connect_calls m @ [sessionId h]\<rparr> in
      if connectionStatus h = Connecting \<or> connectionStatus h = Connected then (h, m1)
      else (h\<lparr>connectionStatus :=
                 (case attempt_outcome m (sessionId h) of
                    Opens \<Rightarrow> Connected
                  | Pending \<Rightarrow> Connecting
                  | Fails \<Rightarrow> Disconnected)\<rparr>,
            m1\<lparr>attempts := attempts m1 @ [sessionId h]\<rparr>))"

text \<open>Modelled from the spec: \<open>WhatsAppSession.logout\<close>. A \<open>connected\<close> or
  \<open>connecting\<close> handle becomes \<open>logged_out\<close>, and logout triggers \<open>clearAll()\<close> on
  the credential store and \<open>deleteAllMedia()\<close> on the blob store of the session.\<close>

definition logout :: "handle \<Rightarrow> manager \<Rightarrow> handle \<times> manager" where
  "logout h m =
     (let h' = (if connectionStatus h = Connected \<or> connectionStatus h = Connecting
                then h\<lparr>connectionStatus := LoggedOut\<rparr> else h);
          w1 = clearAll (sessionId h) (backend m);
          w2 = deleteAllMedia \<lparr>st_sessionId = sessionId h, st_bucket = getStorageBucket w1\<rparr> w1
      in (h', m\<lparr>backend := w2\<rparr>))"

subsection \<open>WhatsAppManager (part 000)\<close>

record result =
  success :: bool
  message :: string
  data :: "info option"

text \<open>The character class of \<open>/^[a-zA-Z0-9_-]+$/\<close>.\<close>

definition char_code :: "char \<Rightarrow> nat" where
  "char_code c = of_char c"

definition id_char :: "char \<Rightarrow> bool" where
  "id_char c =
     ((char_code (CHR ''a'') \<le> char_code c \<and> char_code c \<le> char_code (CHR ''z''))
      \<or> (char_code (CHR ''A'') \<le> char_code c \<and> char_code c \<le> char_code (CHR ''Z''))
      \<or> (char_code (CHR ''0'') \<le> char_code c \<and> char_code c \<le> char_code (CHR ''9''))
      \<or> c = CHR ''_'' \<or> c = CHR ''-'')"

definition valid_id :: "string \<Rightarrow> bool" where
  "valid_id sid = (sid \<noteq> [] \<and> list_all id_char sid)"

definition createSession :: "string \<Rightarrow> options \<Rightarrow> manager \<Rightarrow> result \<times> manager" where
  "createSession sid opts m =
     (if sid = [] \<or> \<not> (sid \<noteq> [] \<and> list_all id_char sid)
      then (\<lparr>success = False,
              message = ''Invalid session ID. Use only letters, numbers, underscore, and dash.'',
              data = None\<rparr>, m)
      else
        (case map_of (sessions m) sid of
           Some existingSession \<Rightarrow>
             (let (h1, m1) = (if opt_metadata opts \<noteq> None \<or> opt_webhooks opts \<noteq> None
                              then updateConfig opts existingSession m
                              else (existingSession, m))
              in if connectionStatus h1 = Connected
                 then (\<lparr>success = False, message = ''Session already connected'',
                         data = Some (getInfo h1)\<rparr>,
                       m1\<lparr>sessions := AList.update sid h1 (sessions m1)\<rparr>)
                 else (let (h2, m2) = connect h1 m1
                       in (\<lparr>success = True, message = ''Reconnecting existing session'',
                             data = Some (getInfo h2)\<rparr>,
                           m2\<lparr>sessions := AList.update sid h2 (sessions m2)\<rparr>)))
         | None \<Rightarrow>
             (let session = new_session sid opts;
                  m1 = saveConfig session (m\<lparr>constructed := Suc (constructed m)\<rparr>);
                  m2 = m1\<lparr>sessions := AList.update sid session (sessions m1)\<rparr>;
                  (h3, m3) = connect session m2
              in (\<lparr>success = True, message = ''Session created'', data = Some (getInfo h3)\<rparr>,
                  m3\<lparr>sessions := AList.update sid h3 (sessions m3)\<rparr>))))"

definition getSession :: "string \<Rightarrow> manager \<Rightarrow> handle option" where
  "getSession sid m = map_of (sessions m) sid"

definition getAllSessions :: "manager \<Rightarrow> info list" where
  "getAllSessions m = map (\<lambda>(sid, session). getInfo session) (sessions m)"

definition deleteSession :: "string \<Rightarrow> manager \<Rightarrow> result \<times> manager" where
  "deleteSession sid m =
     (case map_of (sessions m) sid of
        None \<Rightarrow> (\<lparr>success = False, message = ''Session not found'', data = None\<rparr>, m)
      | Some session \<Rightarrow>
          (let (h', m1) = logout session m
           in (\<lparr>success = True, message = ''Session deleted successfully'', data = None\<rparr>,
               m1\<lparr>sessions := AList.delete sid (sessions m1)\<rparr>)))"

definition getSessionQR :: "string \<Rightarrow> manager \<Rightarrow> info option" where
  "getSessionQR sid m = map_option getInfo (map_of (sessions m) sid)"

text \<open>\<open>Set.add\<close>: a new element goes last, a known one stays where it is.\<close>

definition set_add :: "string \<Rightarrow> string list \<Rightarrow> string list" where
  "set_add x xs = (if x \<in> set xs then xs else xs @ [x])"

text \<open>The catalog query \<open>select session_id ... neq(status, deleted)\<close>; a NULL
  status does not satisfy \<open>neq\<close>.\<close>

definition catalog_ids :: "world \<Rightarrow> string list" where
  "catalog_ids w =
     map fst (filter (\<lambda>(sid, st). st \<noteq> None \<and> st \<noteq> Some ''deleted'') (wa_sessions w))"

definition discover_catalog :: "manager \<Rightarrow> string list \<times> manager" where
  "discover_catalog m =
     (if useSupabase m then
        (case getSupabaseClient (backend m) of
           (Inl (Error e), w0) \<Rightarrow>
             ([], m\<lparr>backend := console_log (''Could not load sessions from Supabase: '' @ e) w0\<rparr>)
         | (Inr c, w0) \<Rightarrow>
             (let w1 = issue SelectSessions w0 in
              case fault_of w0 SelectSessions of
                Rejects e \<Rightarrow>
                  ([], m\<lparr>backend := console_log (''Could not load sessions from Supabase: '' @ e) w1\<rparr>)
              | ReturnsError e \<Rightarrow> ([], m\<lparr>backend := w1\<rparr>)
              | NoFault \<Rightarrow>
                  (fold set_add (catalog_ids w0) [],
                   m\<lparr>backend := console_log ''Found sessions in Supabase'' w1\<rparr>)))
      else ([], m))"

text \<open>The folder scan: \<open>fs.statSync\<close> per entry; a throw leaves the scan.\<close>

fun scan_folder :: "(string \<times> stat) list \<Rightarrow> string list \<Rightarrow> error + string list" where
  "scan_folder [] ids = Inr ids"
| "scan_folder ((name, IsDirectory) # es) ids = scan_folder es (set_add name ids)"
| "scan_folder ((name, NotDirectory) # es) ids = scan_folder es ids"
| "scan_folder ((name, StatThrows e) # es) ids = Inl (Error e)"

definition discover_folder :: "string list \<Rightarrow> manager \<Rightarrow> (error + string list) \<times> manager" where
  "discover_folder ids m =
     (case sessions_folder (backend m) of
        Some entries \<Rightarrow> (scan_folder entries ids, m)
      | None \<Rightarrow> (Inr ids, m\<lparr>backend := (backend m)\<lparr>sessions_folder := Some []\<rparr>\<rparr>))"

text \<open>Modelled from the spec: a call of \<open>WhatsAppSession.connect\<close> as the startup
  restore makes it. Spec 4.1 speaks of errors from an individual session's
  \<open>connect()\<close>: the call rejects with the error that \<open>connect_error\<close> names for the
  session, when there is one, and completes as \<open>connect\<close> otherwise.\<close>

definition connect_call :: "handle \<Rightarrow> manager \<Rightarrow> (error + handle) \<times> manager" where
  "connect_call h m =
     (case connect_error m (sessionId h) of
        Some e \<Rightarrow> (Inl (Error e), m\<lparr>connect_calls := connect_calls m @ [sessionId h]\<rparr>)
      | None \<Rightarrow> (Inr (fst (connect h m)), snd (connect h m)))"

text \<open>
  One turn of the restore loop: a handle for the id, registered and then told to
  connect. The loop has no handler of its own: a rejection of \<open>await
  session.connect()\<close> leaves the loop.
\<close>

definition restore_one :: "string \<Rightarrow> manager \<Rightarrow> (error + unit) \<times> manager" where
  "restore_one sid m =
     (let m0 = m\<lparr>backend := console_log (''Restoring session: '' @ sid) (backend m)\<rparr>;
          session = new_session sid \<lparr>opt_metadata = None, opt_webhooks = None\<rparr>;
          m1 = m0\<lparr>constructed := Suc (constructed m0)\<rparr>;
          m2 = m1\<lparr>sessions := AList.update sid session (sessions m1)\<rparr>
      in case connect_call session m2 of
           (Inl e, m3) \<Rightarrow> (Inl e, m3)
         | (Inr h3, m3) \<Rightarrow> (Inr (), m3\<lparr>sessions := AList.update sid h3 (sessions m3)\<rparr>))"

fun restore_all :: "string list \<Rightarrow> manager \<Rightarrow> (error + unit) \<times> manager" where
  "restore_all [] m = (Inr (), m)"
| "restore_all (sid # rest) m =
     (case restore_one sid m of
        (Inl e, m') \<Rightarrow> (Inl e, m')
      | (Inr u, m') \<Rightarrow> restore_all rest m')"

text \<open>
  \<open>initExistingSessions\<close>: the whole body is in one \<open>try\<close>, whose \<open>catch\<close> logs the
  error; the catalog query has a \<open>try\<close> of its own inside.
\<close>

definition initExistingSessions :: "manager \<Rightarrow> manager" where
  "initExistingSessions m =
     (let (ids1, m1) = discover_catalog m in
      case discover_folder ids1 m1 of
        (Inl (Error e), m2) \<Rightarrow>
          m2\<lparr>backend := console_log (''Error initializing sessions: '' @ e) (backend m2)\<rparr>
      | (Inr ids2, m2) \<Rightarrow>
          (case restore_all ids2 m2 of
             (Inl (Error e), m3) \<Rightarrow>
               m3\<lparr>backend := console_log (''Error initializing sessions: '' @ e) (backend m3)\<rparr>
           | (Inr u, m3) \<Rightarrow>
               m3\<lparr>backend := console_log ''Restored sessions'' (backend m3)\<rparr>))"

definition new_manager :: "(string \<Rightarrow> outcome) \<Rightarrow> (string \<Rightarrow> string option) \<Rightarrow> world \<Rightarrow> manager" where
  "new_manager eng errs w =
     initExistingSessions
       \<lparr>sessions = [], useSupabase = isSupabaseConfigured w, constructed = 0,
        connect_calls = [], attempts = [], saved_configs = Map.empty,
        attempt_outcome = eng, backend = w, connect_error = errs\<rparr>"

subsection \<open>Notions used in the statements\<close>

text \<open>The console lines that the completion of a \<open>keys.set\<close> request writes: one
  for an upsert that fails, none for a delete.\<close>

definition request_logged :: "world \<Rightarrow> request \<Rightarrow> string list" where
  "request_logged w r =
     (case r of
        Upsert sid keyId json \<Rightarrow>
          (case fault_of w r of
             NoFault \<Rightarrow>
               if json = JNull then [write_error sid keyId ''null value in column key_data'']
               else []
           | ReturnsError m \<Rightarrow> [write_error sid keyId m]
           | Rejects m \<Rightarrow> [write_error sid keyId m])
      | _ \<Rightarrow> [])"

text \<open>The registry is in order when no id occurs twice and every handle sits
  under its own id.\<close>

definition registry_ok :: "manager \<Rightarrow> bool" where
  "registry_ok m =
     (distinct (map fst (sessions m)) \<and> (\<forall>kh \<in> set (sessions m). sessionId (snd kh) = fst kh))"

text \<open>The ids found at startup, in the order in which the restore loop takes
  them (none when the folder scan throws).\<close>

definition discovered :: "manager \<Rightarrow> string list" where
  "discovered m =
     (case fst (discover_folder (fst (discover_catalog m)) (snd (discover_catalog m))) of
        Inr ids \<Rightarrow> ids
      | Inl e \<Rightarrow> [])"

text \<open>The status a fresh handle has after its first \<open>connect()\<close>.\<close>

definition first_status :: "outcome \<Rightarrow> status" where
  "first_status oc = (case oc of Opens \<Rightarrow> Connected | Pending \<Rightarrow> Connecting | Fails \<Rightarrow> Disconnected)"

text \<open>The handle that startup restore leaves registered for an id whose
  \<open>connect()\<close> completes: a fresh handle with default options after its first
  \<open>connect()\<close>.\<close>

definition restored_handle :: "(string \<Rightarrow> outcome) \<Rightarrow> string \<Rightarrow> handle" where
  "restored_handle oc sid =
     (new_session sid \<lparr>opt_metadata = None, opt_webhooks = None\<rparr>)
       \<lparr>connectionStatus := first_status (oc sid)\<rparr>"

subsection \<open>Concrete states\<close>

text \<open>States on which the theorems below are exercised. In all of them requests
  that were started together complete in the reverse of the order of starting.\<close>

definition bare_world :: world where
  "bare_world =
     \<lparr>env = Map.empty, supabaseClient = None, clients_made = 0, auth_keys = Map.empty,
      bucket = [], fault_of = (\<lambda>r. NoFault), requests = [], console = [],
      random_source = (\<lambda>n. 0), random_pos = 0,
      signed_url = (\<lambda>p t. ''https://signed/'' @ p),
      wa_sessions = [], sessions_folder = None,
      timeline = [], completion_order = (\<lambda>rs. rev [0..<length rs]),
      upload_path = (\<lambda>p. p)\<rparr>"

definition configured_world :: world where
  "configured_world =
     bare_world\<lparr>env := [''SUPABASE_URL'' \<mapsto> ''https://db.example'',
                         ''SUPABASE_SERVICE_KEY'' \<mapsto> ''secret'']\<rparr>"

definition first_client :: client where
  "first_client =
     \<lparr>serial = 0, url = ''https://db.example'', service_key = ''secret'',
      autoRefreshToken = False, persistSession = False\<rparr>"

text \<open>An engine shaped like the protocol library as it is shipped: the default
  export is the socket factory, a function without a property \<open>Curve\<close>, while the
  module object has one. Its \<open>fromObject\<close> throws on a \<open>fingerprint\<close> that is no
  object and otherwise tags what it is given as the typed message.\<close>

definition sample_fromObject :: "jsval \<Rightarrow> error + jsval" where
  "sample_fromObject v =
     (case v of
        JObj kvs \<Rightarrow>
          (case map_of kvs ''fingerprint'' of
             Some (JStr s) \<Rightarrow> Inl (Error ''TypeError: .fingerprint: object expected'')
           | _ \<Rightarrow> Inr (JObj ((''$type'', JStr ''AppStateSyncKeyData'') # kvs)))
      | _ \<Rightarrow> Inr (JObj [(''$type'', JStr ''AppStateSyncKeyData'')]))"

definition library_engine :: engine where
  "library_engine =
     \<lparr>default_export = Some \<lparr>exp_Curve = None\<rparr>,
      module_exports = \<lparr>exp_Curve = Some \<lparr>publicKey = (\<lambda>k. k), sign = (\<lambda>k d. d)\<rparr>\<rparr>,
      base64 = (\<lambda>b. []),
      fromObject = sample_fromObject\<rparr>"

definition idle_manager :: manager where
  "idle_manager =
     \<lparr>sessions = [], useSupabase = False, constructed = 0, connect_calls = [],
      attempts = [], saved_configs = Map.empty, attempt_outcome = (\<lambda>s. Pending),
      backend = bare_world, connect_error = (\<lambda>s. None)\<rparr>"

definition no_options :: options where
  "no_options = \<lparr>opt_metadata = None, opt_webhooks = None\<rparr>"

definition flaky_world :: world where
  "flaky_world =
     configured_world
       \<lparr>auth_keys := [(''s1'', ''pre-key-1'') \<mapsto> JStr ''k1'', (''s1'', ''pre-key-2'') \<mapsto> JStr ''k2''],
        fault_of := (\<lambda>r. if r = Select ''s1'' ''pre-key-1'' then ReturnsError ''timeout''
                          else if r = Delete ''s1'' ''pre-key-1'' then Rejects ''down''
                          else NoFault)\<rparr>"

definition adapter_s1 :: auth_state where
  "adapter_s1 = \<lparr>a_session = ''s1'', creds = JNull\<rparr>"

definition null_update :: "(string \<times> (string \<times> jsval) list) list" where
  "null_update = [(''pre-key'', [(''1'', JNull)])]"

definition mixed_update :: "(string \<times> (string \<times> jsval) list) list" where
  "mixed_update = [(''pre-key'', [(''1'', JNull), (''3'', JStr ''k3'')])]"





definition stored_identity :: jsval where
  "stored_identity = JObj [(''registered'', JBool True)]"

definition outage_world :: world where
  "outage_world =
     configured_world
       \<lparr>auth_keys := [(''s1'', ''creds'') \<mapsto> stored_identity],
        fault_of := (\<lambda>r. if r = Select ''s1'' ''creds'' then ReturnsError ''timeout''
                          else NoFault)\<rparr>"

definition populated_world :: world where
  "populated_world = configured_world\<lparr>auth_keys := [(''s1'', ''creds'') \<mapsto> stored_identity]\<rparr>"

definition storage_s1 :: storage where
  "storage_s1 = \<lparr>st_sessionId = ''s1'', st_bucket = ''chatery-media''\<rparr>"

definition unsigned_world :: world where
  "unsigned_world =
     configured_world
       \<lparr>fault_of := (\<lambda>r. if r = CreateSignedUrl ''s1/m1.jpg'' 3600 then ReturnsError ''denied''
                          else NoFault)\<rparr>"

definition down_world :: world where
  "down_world =
     configured_world
       \<lparr>auth_keys := [(''s1'', ''creds'') \<mapsto> stored_identity],
        bucket := [(''s1/m1.jpg'', ([1, 2, 3], ''image/jpeg''))],
        fault_of := (\<lambda>r. Rejects ''down'')\<rparr>"

definition handle_s1 :: handle where
  "handle_s1 = \<lparr>sessionId = ''s1'', connectionStatus = Connected, metadata = [], webhooks = []\<rparr>"

definition handle_s2 :: handle where
  "handle_s2 = \<lparr>sessionId = ''s2'', connectionStatus = Connecting, metadata = [], webhooks = []\<rparr>"

definition busy_manager :: manager where
  "busy_manager =
     idle_manager\<lparr>sessions := [(''s1'', handle_s1), (''s2'', handle_s2)], constructed := 2,
                   backend := down_world\<rparr>"



section \<open>Properties\<close>

subsection \<open>The client singleton\<close>

lemma getSupabaseClient_cached:
  "supabaseClient w = Some c \<Longrightarrow> getSupabaseClient w = (Inr c, w)"
  by (simp add: getSupabaseClient_def)

lemma getSupabaseClient_success_caches:
  "getSupabaseClient w = (Inr c, w') \<Longrightarrow> supabaseClient w' = Some c"
  by (auto simp: getSupabaseClient_def createClient_def Let_def
           split: option.splits if_splits)

text \<open>
  C10. With no client instance yet and \<open>SUPABASE_URL\<close> or \<open>SUPABASE_SERVICE_KEY\<close>
  unset, \<open>getSupabaseClient\<close> throws (and creates nothing). After a call that
  succeeded, every later call returns the same instance, whatever the
  environment has become in the meantime, constructs no client and changes
  nothing.
\<close>

theorem getSupabaseClient_singleton:
  "(supabaseClient w = None \<and>
      (env w ''SUPABASE_URL'' = None \<or> env w ''SUPABASE_SERVICE_KEY'' = None) \<longrightarrow>
      (\<exists>msg. getSupabaseClient w = (Inl (Error msg), w)))
   \<and> (getSupabaseClient v = (Inr c, v') \<longrightarrow>
        (\<forall>e. getSupabaseClient (v'\<lparr>env := e\<rparr>) = (Inr c, v'\<lparr>env := e\<rparr>)))"
proof (intro conjI impI allI)
  assume "supabaseClient w = None \<and>
      (env w ''SUPABASE_URL'' = None \<or> env w ''SUPABASE_SERVICE_KEY'' = None)"
  then show "\<exists>msg. getSupabaseClient w = (Inl (Error msg), w)"
    by (auto simp: getSupabaseClient_def env_truthy_def)
next
  fix e
  assume "getSupabaseClient v = (Inr c, v')"
  then have "supabaseClient (v'\<lparr>env := e\<rparr>) = Some c"
    by (simp add: getSupabaseClient_success_caches)
  then show "getSupabaseClient (v'\<lparr>env := e\<rparr>) = (Inr c, v'\<lparr>env := e\<rparr>)"
    by (rule getSupabaseClient_cached)
qed

lemma getSupabaseClient_configured:
  "getSupabaseClient configured_world =
     (Inr first_client, configured_world\<lparr>clients_made := 1, supabaseClient := Some first_client\<rparr>)"
  by (simp add: getSupabaseClient_def configured_world_def bare_world_def env_truthy_def
        createClient_def first_client_def)

theorem getSupabaseClient_singleton_witness:
  "supabaseClient bare_world = None \<and> env bare_world ''SUPABASE_URL'' = None
   \<and> (\<exists>msg. getSupabaseClient bare_world = (Inl (Error msg), bare_world))
   \<and> fst (getSupabaseClient configured_world) = Inr first_client
   \<and> fst (getSupabaseClient ((snd (getSupabaseClient configured_world))\<lparr>env := Map.empty\<rparr>))
       = Inr first_client"
proof -
  have a: "supabaseClient bare_world = None \<and> env bare_world ''SUPABASE_URL'' = None"
    by (simp add: bare_world_def)
  note t = getSupabaseClient_singleton
             [of bare_world configured_world first_client
                 "configured_world\<lparr>clients_made := 1, supabaseClient := Some first_client\<rparr>"]
  from t a have "\<exists>msg. getSupabaseClient bare_world = (Inl (Error msg), bare_world)"
    by blast
  moreover from t getSupabaseClient_configured
  have "fst (getSupabaseClient
          ((configured_world\<lparr>clients_made := 1, supabaseClient := Some first_client\<rparr>)
             \<lparr>env := Map.empty\<rparr>)) = Inr first_client"
    by simp
  ultimately show ?thesis
    using a by (simp add: getSupabaseClient_configured)
qed

subsection \<open>Validation of the session id\<close>

text \<open>
  C5. For every candidate id that is empty or contains a character outside
  \<open>[A-Za-z0-9_-]\<close>, \<open>createSession\<close> returns a failure result with the validation
  message and leaves the whole state as it was: no handle is registered and
  neither the registry nor the stores change.
\<close>

theorem createSession_invalid_id:
  "sid = [] \<or> (\<exists>c \<in> set sid. \<not> id_char c) \<Longrightarrow>
   createSession sid opts m =
     (\<lparr>success = False,
       message = ''Invalid session ID. Use only letters, numbers, underscore, and dash.'',
       data = None\<rparr>, m)"
  by (auto simp: createSession_def list_all_iff)

theorem createSession_invalid_id_witness:
  "(\<exists>c \<in> set ''my session''. \<not> id_char c)
   \<and> createSession ''my session'' no_options idle_manager =
       (\<lparr>success = False,
         message = ''Invalid session ID. Use only letters, numbers, underscore, and dash.'',
         data = None\<rparr>, idle_manager)"
proof -
  have h: "\<exists>c \<in> set ''my session''. \<not> id_char c"
    by (simp add: id_char_def char_code_def)
  then have "''my session'' = [] \<or> (\<exists>c \<in> set ''my session''. \<not> id_char c)" ..
  from createSession_invalid_id [OF this, of no_options idle_manager] h
  show ?thesis by blast
qed

subsection \<open>Requests that are started together\<close>

lemma arrival_sorted: "sort (arrival w rs) = [0..<length rs]"
  by (simp add: arrival_def)

lemma arrival_set: "set (arrival w rs) = {0..<length rs}"
proof -
  have "set (sort (arrival w rs)) = set [0..<length rs]"
    by (simp only: arrival_sorted)
  then show ?thesis by simp
qed

lemma arrival_distinct: "distinct (arrival w rs)"
proof -
  have "distinct (sort (arrival w rs))"
    by (simp only: arrival_sorted distinct_upt)
  then show ?thesis by simp
qed

lemma completed_set:
  assumes "length xs = length rs"
  shows "set (completed w rs xs) = set xs"
proof -
  have "set (completed w rs xs) = (\<lambda>j. xs ! j) ` {0..<length xs}"
    by (simp add: completed_def arrival_set assms)
  also have "\<dots> = set (map (\<lambda>j. xs ! j) [0..<length xs])"
    by simp
  also have "\<dots> = set xs"
    by (simp only: map_nth)
  finally show ?thesis .
qed

lemma fold_start:
  "requests (fold start rs w) = requests w @ rs"
  "timeline (fold start rs w) = timeline w @ map Start rs"
  "fault_of (fold start rs w) = fault_of w"
  "auth_keys (fold start rs w) = auth_keys w"
  "console (fold start rs w) = console w"
  by (induction rs arbitrary: w) (simp_all add: start_def)

lemma fold_finish:
  "requests (fold finish rs w) = requests w"
  "timeline (fold finish rs w) = timeline w @ map Finish rs"
  "fault_of (fold finish rs w) = fault_of w"
  "auth_keys (fold finish rs w) = auth_keys w"
  "console (fold finish rs w) = console w"
  by (induction rs arbitrary: w) (simp_all add: finish_def)

subsection \<open>Reading credential keys\<close>


lemma collect_throws:
  "\<exists>i \<in> set js. \<exists>e. g i = Inl e \<Longrightarrow> \<exists>e. collect (map (\<lambda>i. (i, g i)) js) d = Inl e"
proof (induction js arbitrary: d)
  case Nil
  then show ?case by simp
next
  case (Cons x xs)
  show ?case
  proof (cases "g x")
    case (Inl e)
    then show ?thesis by simp
  next
    case (Inr v)
    with Cons.prems have "\<exists>i \<in> set xs. \<exists>e. g i = Inl e" by auto
    from Cons.IH [OF this, of "assign x v d"] Inr show ?thesis by simp
  qed
qed

lemma keys_get_collect:
  "fst (keys_get E a type ids w) =
     collect (map (\<lambda>i. (i, reconstruct E type (read_answer w (a_session a) (type @ ''-'' @ i))))
                (completed w (map (\<lambda>i. Select (a_session a) (type @ ''-'' @ i)) ids) ids))
       \<lparr>own = Map.empty, prototype = None\<rparr>"
  by (simp add: keys_get_def Let_def)

lemma keys_get_order_set:
  "set (completed w (map (\<lambda>i. Select sid (type @ ''-'' @ i)) ids) ids) = set ids"
  by (rule completed_set) simp



text \<open>Where \<open>fromObject\<close> throws for one of the ids, \<open>keys.get\<close> rejects.\<close>

lemma keys_get_rejects:
  assumes "\<exists>i \<in> set ids. \<exists>e. reconstruct E type (read_answer w (a_session a) (type @ ''-'' @ i)) = Inl e"
  shows "\<exists>e. fst (keys_get E a type ids w) = Inl e"
proof -
  let ?g = "\<lambda>i. reconstruct E type (read_answer w (a_session a) (type @ ''-'' @ i))"
  let ?js = "completed w (map (\<lambda>i. Select (a_session a) (type @ ''-'' @ i)) ids) ids"
  have js: "set ?js = set ids"
    by (rule keys_get_order_set)
  from assms have "\<exists>i \<in> set ?js. \<exists>e. ?g i = Inl e"
    by (simp only: js)
  from collect_throws [of ?js ?g, OF this, of "\<lparr>own = Map.empty, prototype = None\<rparr>"]
  show ?thesis
    unfolding keys_get_collect .
qed




subsection \<open>Writing credential keys\<close>

lemma truthy_json: "truthy v \<Longrightarrow> json_of v \<noteq> JNull"
  by (cases v) simp_all

lemma writeData_done_effect:
  "requests (writeData_done sid k j w) = requests w"
  "fault_of (writeData_done sid k j w) = fault_of w"
  "timeline (writeData_done sid k j w) = timeline w @ [Finish (Upsert sid k j)]"
  "console (writeData_done sid k j w) = console w @ request_logged w (Upsert sid k j)"
  "auth_keys (writeData_done sid k j w) =
     (if fault_of w (Upsert sid k j) = NoFault \<and> j \<noteq> JNull then (auth_keys w)((sid, k) \<mapsto> j)
      else auth_keys w)"
  by (simp_all add: writeData_done_def finish_def console_log_def request_logged_def Let_def
        split: fault.splits)

lemma removeData_done_effect:
  "requests (removeData_done sid k w) = requests w"
  "fault_of (removeData_done sid k w) = fault_of w"
  "timeline (removeData_done sid k w) = timeline w @ [Finish (Delete sid k)]"
  "console (removeData_done sid k w) = console w @ request_logged w (Delete sid k)"
  "auth_keys (removeData_done sid k w) =
     (if fault_of w (Delete sid k) = NoFault then (auth_keys w)((sid, k) := None) else auth_keys w)"
  by (simp_all add: removeData_done_def finish_def request_logged_def Let_def split: fault.splits)

lemma task_done_effect:
  "requests (task_done (set_request sid t) w) = requests w"
  "fault_of (task_done (set_request sid t) w) = fault_of w"
  "timeline (task_done (set_request sid t) w) = timeline w @ [Finish (set_request sid t)]"
  "console (task_done (set_request sid t) w) = console w @ request_logged w (set_request sid t)"
  "auth_keys (task_done (set_request sid t) w) =
     (if fault_of w (set_request sid t) = NoFault
      then (auth_keys w)((sid, key_of t) :=
             (if truthy (snd (snd t)) then Some (json_of (snd (snd t))) else None))
      else auth_keys w)"
  by (simp_all add: task_done_def set_request_def writeData_done_effect removeData_done_effect
        truthy_json)

lemma request_logged_same:
  "fault_of w' = fault_of w \<Longrightarrow> request_logged w' = request_logged w"
  by (rule ext) (simp add: request_logged_def split: request.splits)

lemma done_fold:
  "requests (fold task_done (map (set_request sid) ts) w) = requests w"
  "fault_of (fold task_done (map (set_request sid) ts) w) = fault_of w"
  "timeline (fold task_done (map (set_request sid) ts) w) =
     timeline w @ map Finish (map (set_request sid) ts)"
  by (induction ts arbitrary: w) (simp_all add: task_done_effect)

lemma done_fold_console:
  "console (fold task_done (map (set_request sid) ts) w) =
     console w @ concat (map (request_logged w) (map (set_request sid) ts))"
proof (induction ts arbitrary: w)
  case Nil
  then show ?case by simp
next
  case (Cons t ts)
  have "request_logged (task_done (set_request sid t) w) = request_logged w"
    by (rule request_logged_same) (simp add: task_done_effect)
  with Cons.IH [of "task_done (set_request sid t) w"] show ?case
    by (simp add: task_done_effect)
qed

lemma done_fold_other_key:
  "k \<notin> key_of ` set ts \<Longrightarrow>
   auth_keys (fold task_done (map (set_request sid) ts) w) (sid, k) = auth_keys w (sid, k)"
  by (induction ts arbitrary: w) (simp_all add: task_done_effect)

lemma done_fold_key:
  "distinct (map key_of ts) \<Longrightarrow> t \<in> set ts \<Longrightarrow>
   auth_keys (fold task_done (map (set_request sid) ts) w) (sid, key_of t) =
     (if fault_of w (set_request sid t) = NoFault
      then (if truthy (snd (snd t)) then Some (json_of (snd (snd t))) else None)
      else auth_keys w (sid, key_of t))"
proof (induction ts arbitrary: w)
  case Nil
  then show ?case by simp
next
  case (Cons x xs)
  show ?case
  proof (cases "t = x")
    case True
    with Cons.prems have "key_of t \<notin> key_of ` set xs" by simp
    from done_fold_other_key [OF this] True show ?thesis
      by (simp add: task_done_effect)
  next
    case False
    with Cons.prems have t: "t \<in> set xs" and d: "distinct (map key_of xs)"
      and ne: "key_of x \<noteq> key_of t"
      by auto
    from Cons.IH [OF d t, of "task_done (set_request sid x) w"] ne show ?thesis
      by (simp add: task_done_effect)
  qed
qed

text \<open>The triples of a call in the order in which their requests complete.\<close>

lemma completed_map:
  "length xs = length rs \<Longrightarrow> completed w rs (map f xs) = map f (completed w rs xs)"
  by (simp add: completed_def arrival_set)

lemma completed_positions:
  "completed w rs xs = map (\<lambda>j. xs ! j) (arrival w rs)"
  by (simp add: completed_def)

lemma completed_distinct:
  assumes "distinct (map f xs)" and "length xs = length rs"
  shows "distinct (map f (completed w rs xs))"
proof -
  have "inj_on (\<lambda>j. f (xs ! j)) (set (arrival w rs))"
  proof (rule inj_onI)
    fix i j
    assume "i \<in> set (arrival w rs)" and "j \<in> set (arrival w rs)"
      and eq: "f (xs ! i) = f (xs ! j)"
    then have i: "i < length (map f xs)" and j: "j < length (map f xs)"
      by (simp_all add: arrival_set assms(2))
    with eq have "map f xs ! i = map f xs ! j" by simp
    with assms(1) i j show "i = j"
      by (simp only: nth_eq_iff_index_eq)
  qed
  then show ?thesis
    by (simp add: completed_def distinct_map arrival_distinct comp_def)
qed

lemma keys_set_unfold:
  "keys_set a upd w =
     fold task_done
       (map (set_request (a_session a))
          (completed w (map (set_request (a_session a)) (triples upd)) (triples upd)))
       (fold start (map (set_request (a_session a)) (triples upd)) w)"
  by (simp add: keys_set_def Let_def completed_map)


lemma keys_set_row:
  assumes d: "distinct (map key_of (triples upd))" and t: "t \<in> set (triples upd)"
  shows "auth_keys (keys_set a upd w) (a_session a, key_of t) =
          (if fault_of w (set_request (a_session a) t) = NoFault
           then (if truthy (snd (snd t)) then Some (json_of (snd (snd t))) else None)
           else auth_keys w (a_session a, key_of t))"
proof -
  let ?sid = "a_session a"
  let ?ts = "triples upd"
  let ?rs = "map (set_request ?sid) ?ts"
  let ?w1 = "fold start ?rs w"
  let ?cs = "completed w ?rs ?ts"
  have len: "length ?ts = length ?rs" by simp
  have dc: "distinct (map key_of ?cs)"
    using completed_distinct [OF d len] .
  have tc: "t \<in> set ?cs"
    using t completed_set [OF len, of w] by simp
  from done_fold_key [OF dc tc, of ?sid ?w1] show ?thesis
    by (simp add: keys_set_unfold fold_start)
qed

text \<open>
  C8, as amended. \<open>keys.set\<close> makes one request per triple: an upsert of the
  value (as JSON) under the key \<open><category>-<id>\<close> of the session when the value
  is present (truthy), a delete of that key otherwise. All requests of a call
  are started, in the order of the loops, before any of them completes; they
  complete in an order of their own. A failed upsert writes one line to the
  console when it completes; a failed delete writes none. When the keys of a
  call are pairwise different, a triple whose request succeeds has its effect on
  the table and a triple whose request fails leaves its row as it was, whatever
  happens to the other triples of the call.
\<close>

theorem keys_set_writes:
  "requests (keys_set a upd w) = requests w @ map (set_request (a_session a)) (triples upd)
   \<and> (\<exists>p. sort p = [0..<length (triples upd)]
        \<and> timeline (keys_set a upd w) =
            timeline w @ map (\<lambda>t. Start (set_request (a_session a) t)) (triples upd)
              @ map (\<lambda>j. Finish (set_request (a_session a) (triples upd ! j))) p
        \<and> console (keys_set a upd w) =
            console w
              @ concat (map (\<lambda>j. request_logged w (set_request (a_session a) (triples upd ! j))) p))
   \<and> (distinct (map key_of (triples upd)) \<longrightarrow>
        (\<forall>t \<in> set (triples upd).
           auth_keys (keys_set a upd w) (a_session a, key_of t) =
             (if fault_of w (set_request (a_session a) t) = NoFault
              then (if truthy (snd (snd t)) then Some (json_of (snd (snd t))) else None)
              else auth_keys w (a_session a, key_of t))))"
proof (intro conjI impI ballI)
  let ?sid = "a_session a"
  let ?ts = "triples upd"
  let ?rs = "map (set_request ?sid) ?ts"
  let ?w1 = "fold start ?rs w"
  let ?cs = "completed w ?rs ?ts"
  have len: "length ?ts = length ?rs" by simp
  have same: "request_logged ?w1 = request_logged w"
    by (rule request_logged_same) (simp add: fold_start)
  show "requests (keys_set a upd w) = requests w @ ?rs"
    by (simp add: keys_set_unfold done_fold fold_start)
  show "\<exists>p. sort p = [0..<length ?ts]
        \<and> timeline (keys_set a upd w) =
            timeline w @ map (\<lambda>t. Start (set_request ?sid t)) ?ts
              @ map (\<lambda>j. Finish (set_request ?sid (?ts ! j))) p
        \<and> console (keys_set a upd w) =
            console w @ concat (map (\<lambda>j. request_logged w (set_request ?sid (?ts ! j))) p)"
  proof (intro exI [of _ "arrival w ?rs"] conjI)
    show "sort (arrival w ?rs) = [0..<length ?ts]"
      by (simp add: arrival_sorted)
    have k: "keys_set a upd w = fold task_done (map (set_request ?sid) ?cs) ?w1"
      by (rule keys_set_unfold)
    have cs: "?cs = map (\<lambda>j. ?ts ! j) (arrival w ?rs)"
      by (rule completed_positions)
    have tl: "timeline (keys_set a upd w) = timeline ?w1 @ map Finish (map (set_request ?sid) ?cs)"
      unfolding k by (rule done_fold(3))
    have co: "console (keys_set a upd w) =
        console ?w1 @ concat (map (request_logged ?w1) (map (set_request ?sid) ?cs))"
      unfolding k by (rule done_fold_console)
    show "timeline (keys_set a upd w) =
            timeline w @ map (\<lambda>t. Start (set_request ?sid t)) ?ts
              @ map (\<lambda>j. Finish (set_request ?sid (?ts ! j))) (arrival w ?rs)"
      unfolding tl cs by (simp add: fold_start comp_def)
    show "console (keys_set a upd w) =
            console w @ concat (map (\<lambda>j. request_logged w (set_request ?sid (?ts ! j)))
                                  (arrival w ?rs))"
      unfolding co cs same by (simp add: fold_start comp_def)
  qed
next
  fix t
  assume "distinct (map key_of (triples upd))" and "t \<in> set (triples upd)"
  then show "auth_keys (keys_set a upd w) (a_session a, key_of t) =
          (if fault_of w (set_request (a_session a) t) = NoFault
           then (if truthy (snd (snd t)) then Some (json_of (snd (snd t))) else None)
           else auth_keys w (a_session a, key_of t))"
    by (rule keys_set_row)
qed

lemma arrival_flaky_one: "arrival flaky_world [r] = [0]"
  by (simp add: arrival_def flaky_world_def configured_world_def bare_world_def)

lemma arrival_flaky_two: "arrival flaky_world [r1, r2] = [1, 0]"
  by (simp add: arrival_def flaky_world_def configured_world_def bare_world_def)

lemma mixed_timeline:
  "timeline (keys_set adapter_s1 mixed_update flaky_world) =
     [Start (Delete ''s1'' ''pre-key-1''), Start (Upsert ''s1'' ''pre-key-3'' (JStr ''k3'')),
      Finish (Upsert ''s1'' ''pre-key-3'' (JStr ''k3'')), Finish (Delete ''s1'' ''pre-key-1'')]"
proof -
  have ts: "triples mixed_update = [(''pre-key'', ''1'', JNull), (''pre-key'', ''3'', JStr ''k3'')]"
    by (simp add: mixed_update_def triples_def)
  have rs: "map (set_request (a_session adapter_s1)) (triples mixed_update) =
      [Delete ''s1'' ''pre-key-1'', Upsert ''s1'' ''pre-key-3'' (JStr ''k3'')]"
    by (simp add: ts set_request_def key_of_def adapter_s1_def)
  have t0: "timeline flaky_world = []"
    by (simp add: flaky_world_def configured_world_def bare_world_def)
  show ?thesis
    unfolding keys_set_def Let_def rs completed_def arrival_flaky_two
    by (simp add: task_done_def writeData_done_def removeData_done_def finish_def start_def
          console_log_def t0 Let_def split: fault.splits)
qed

theorem keys_set_writes_witness:
  "distinct (map key_of (triples mixed_update))
   \<and> (''pre-key'', ''3'', JStr ''k3'') \<in> set (triples mixed_update)
   \<and> (''pre-key'', ''1'', JNull) \<in> set (triples mixed_update)
   \<and> auth_keys (keys_set adapter_s1 mixed_update flaky_world) (''s1'', ''pre-key-3'')
       = Some (JStr ''k3'')
   \<and> auth_keys (keys_set adapter_s1 mixed_update flaky_world) (''s1'', ''pre-key-1'')
       = Some (JStr ''k1'')
   \<and> timeline (keys_set adapter_s1 mixed_update flaky_world) =
       [Start (Delete ''s1'' ''pre-key-1''), Start (Upsert ''s1'' ''pre-key-3'' (JStr ''k3'')),
        Finish (Upsert ''s1'' ''pre-key-3'' (JStr ''k3'')), Finish (Delete ''s1'' ''pre-key-1'')]"
proof -
  have d: "distinct (map key_of (triples mixed_update))"
    and t3: "(''pre-key'', ''3'', JStr ''k3'') \<in> set (triples mixed_update)"
    and t1: "(''pre-key'', ''1'', JNull) \<in> set (triples mixed_update)"
    by (simp_all add: mixed_update_def triples_def key_of_def)
  note t = keys_set_writes [of adapter_s1 mixed_update flaky_world]
  from t d t3
  have "auth_keys (keys_set adapter_s1 mixed_update flaky_world)
          (a_session adapter_s1, key_of (''pre-key'', ''3'', JStr ''k3'')) =
        (if fault_of flaky_world (set_request (a_session adapter_s1) (''pre-key'', ''3'', JStr ''k3''))
            = NoFault
         then (if truthy (snd (snd (''pre-key'', ''3'', JStr ''k3'')))
               then Some (json_of (snd (snd (''pre-key'', ''3'', JStr ''k3'')))) else None)
         else auth_keys flaky_world (a_session adapter_s1, key_of (''pre-key'', ''3'', JStr ''k3'')))"
    by blast
  then have a3: "auth_keys (keys_set adapter_s1 mixed_update flaky_world) (''s1'', ''pre-key-3'')
       = Some (JStr ''k3'')"
    by (simp add: adapter_s1_def key_of_def set_request_def flaky_world_def)
  from t d t1
  have "auth_keys (keys_set adapter_s1 mixed_update flaky_world)
          (a_session adapter_s1, key_of (''pre-key'', ''1'', JNull)) =
        (if fault_of flaky_world (set_request (a_session adapter_s1) (''pre-key'', ''1'', JNull))
            = NoFault
         then (if truthy (snd (snd (''pre-key'', ''1'', JNull)))
               then Some (json_of (snd (snd (''pre-key'', ''1'', JNull)))) else None)
         else auth_keys flaky_world (a_session adapter_s1, key_of (''pre-key'', ''1'', JNull)))"
    by blast
  then have a1: "auth_keys (keys_set adapter_s1 mixed_update flaky_world) (''s1'', ''pre-key-1'')
       = Some (JStr ''k1'')"
    by (simp add: adapter_s1_def key_of_def set_request_def flaky_world_def)
  from d t3 t1 a3 a1 mixed_timeline show ?thesis by blast
qed

text \<open>The claim as stated fails where a delete fails: the request is rejected, the
  row stays, and nothing is written to the console.\<close>

theorem keys_set_silent_delete_counterexample:
  "fault_of flaky_world (Delete ''s1'' ''pre-key-1'') = Rejects ''down''
   \<and> requests (keys_set adapter_s1 null_update flaky_world) = [Delete ''s1'' ''pre-key-1'']
   \<and> auth_keys (keys_set adapter_s1 null_update flaky_world) (''s1'', ''pre-key-1'')
       = Some (JStr ''k1'')
   \<and> console (keys_set adapter_s1 null_update flaky_world) = console flaky_world"
proof -
  have rs: "map (set_request (a_session adapter_s1)) (triples null_update) =
      [Delete ''s1'' ''pre-key-1'']"
    by (simp add: null_update_def triples_def set_request_def key_of_def adapter_s1_def)
  have f: "fault_of flaky_world (Delete ''s1'' ''pre-key-1'') = Rejects ''down''"
    and r: "auth_keys flaky_world (''s1'', ''pre-key-1'') = Some (JStr ''k1'')"
    and q: "requests flaky_world = []"
    by (simp_all add: flaky_world_def configured_world_def bare_world_def)
  have k: "keys_set adapter_s1 null_update flaky_world =
      removeData_done ''s1'' ''pre-key-1'' (start (Delete ''s1'' ''pre-key-1'') flaky_world)"
    unfolding keys_set_def Let_def rs completed_def arrival_flaky_one
    by (simp add: task_done_def)
  show ?thesis
    by (simp add: k f r q removeData_done_def finish_def start_def Let_def)
qed

subsection \<open>Round trip through the credential store\<close>






subsection \<open>Bootstrap of the credentials\<close>

lemma getSupabaseClient_keeps:
  "getSupabaseClient w = (r, w0) \<Longrightarrow>
   auth_keys w0 = auth_keys w \<and> fault_of w0 = fault_of w \<and> random_pos w0 = random_pos w
   \<and> requests w0 = requests w"
  by (auto simp: getSupabaseClient_def createClient_def Let_def split: option.splits if_splits)

lemma randomBytes_world: "snd (randomBytes n w) = w\<lparr>random_pos := random_pos w + n\<rparr>"
  by (simp add: randomBytes_def)

lemma generateKeyPair_world: "snd (generateKeyPair C w) = w\<lparr>random_pos := random_pos w + 32\<rparr>"
  by (simp add: generateKeyPair_def split_beta randomBytes_world split: option.splits)

lemma generateKeyPair_result:
  "fst (generateKeyPair None w) =
     Inl (Error ''TypeError: Cannot read properties of undefined (reading publicKey)'')"
  "\<exists>kp. fst (generateKeyPair (Some c) w) = Inr kp"
  by (simp_all add: generateKeyPair_def split_beta)

lemma initAuthCreds_no_curve:
  assumes "required_Curve E = None"
  shows "initAuthCreds E w =
     (Inl (Error ''TypeError: Cannot read properties of undefined (reading publicKey)''),
      w\<lparr>random_pos := random_pos w + 32\<rparr>)"
proof -
  have "generateKeyPair None w =
      (Inl (Error ''TypeError: Cannot read properties of undefined (reading publicKey)''),
       w\<lparr>random_pos := random_pos w + 32\<rparr>)"
    using generateKeyPair_world [of None w] generateKeyPair_result(1) [of w]
    by (simp add: prod_eq_iff)
  then show ?thesis
    by (simp add: initAuthCreds_def assms)
qed

lemma generateSignedKeyPair_curve:
  "\<exists>j. generateSignedKeyPair (Some c) k w = (Inr j, w\<lparr>random_pos := random_pos w + 34\<rparr>)"
proof -
  obtain b w1 where b: "randomBytes 2 w = (b, w1)"
    by (cases "randomBytes 2 w")
  then have w1: "w1 = w\<lparr>random_pos := random_pos w + 2\<rparr>"
    using randomBytes_world [of 2 w] by simp
  obtain kp where "generateKeyPair (Some c) w1 = (Inr kp, w1\<lparr>random_pos := random_pos w1 + 32\<rparr>)"
    using generateKeyPair_world [of "Some c" w1] generateKeyPair_result(2) [of c w1]
    by (auto simp: prod_eq_iff)
  with b w1 show ?thesis
    by (simp add: generateSignedKeyPair_def Let_def)
qed

lemma initAuthCreds_curve:
  assumes "required_Curve E = Some c"
  shows "\<exists>x rest. initAuthCreds E w =
     (Inr (JObj ((''noiseKey'', x) # rest)), w\<lparr>random_pos := random_pos w + 164\<rparr>)"
proof -
  define w1 where "w1 = w\<lparr>random_pos := random_pos w + 32\<rparr>"
  define w2 where "w2 = w\<lparr>random_pos := random_pos w + 64\<rparr>"
  define w3 where "w3 = w\<lparr>random_pos := random_pos w + 96\<rparr>"
  define w4 where "w4 = w\<lparr>random_pos := random_pos w + 130\<rparr>"
  have kp: "\<exists>kp. generateKeyPair (Some c) v = (Inr kp, v\<lparr>random_pos := random_pos v + 32\<rparr>)" for v
    using generateKeyPair_world [of "Some c" v] generateKeyPair_result(2) [of c v]
    by (auto simp: prod_eq_iff)
  from kp [of w] obtain k1 where k1: "generateKeyPair (Some c) w = (Inr k1, w1)"
    by (auto simp: w1_def)
  from kp [of w1] obtain k2 where k2: "generateKeyPair (Some c) w1 = (Inr k2, w2)"
    by (auto simp: w1_def w2_def)
  from kp [of w2] obtain k3 where k3: "generateKeyPair (Some c) w2 = (Inr k3, w3)"
    by (auto simp: w2_def w3_def)
  from generateSignedKeyPair_curve [of c k1 w3]
  obtain j where j: "generateSignedKeyPair (Some c) k1 w3 = (Inr j, w4)"
    by (auto simp: w3_def w4_def)
  have "snd (randomBytes 32 (snd (randomBytes 2 w4))) = w\<lparr>random_pos := random_pos w + 164\<rparr>"
    by (simp add: randomBytes_world w4_def)
  then show ?thesis
    by (simp add: initAuthCreds_def assms k1 k2 k3 j split_beta Let_def)
qed

lemma initAuthCreds_draws: "random_pos w < random_pos (snd (initAuthCreds E w))"
proof (cases "required_Curve E")
  case None
  then show ?thesis by (simp add: initAuthCreds_no_curve)
next
  case (Some c)
  from initAuthCreds_curve [OF this, of w] show ?thesis by auto
qed

lemma initAuthCreds_keeps:
  "auth_keys (snd (initAuthCreds E w)) = auth_keys w"
  "requests (snd (initAuthCreds E w)) = requests w"
proof -
  have "auth_keys (snd (initAuthCreds E w)) = auth_keys w
      \<and> requests (snd (initAuthCreds E w)) = requests w"
  proof (cases "required_Curve E")
    case None
    then show ?thesis by (simp add: initAuthCreds_no_curve)
  next
    case (Some c)
    from initAuthCreds_curve [OF this, of w] show ?thesis by auto
  qed
  then show "auth_keys (snd (initAuthCreds E w)) = auth_keys w"
    and "requests (snd (initAuthCreds E w)) = requests w"
    by simp_all
qed

lemma read_answer_same:
  "fault_of w' = fault_of w \<Longrightarrow> auth_keys w' = auth_keys w \<Longrightarrow>
   read_answer w' sid k = read_answer w sid k"
  by (simp add: read_answer_def split: fault.splits)

lemma useSupabaseAuthState_unfold:
  assumes "getSupabaseClient w = (Inr c, w0)"
  shows "useSupabaseAuthState E sid w =
     (if truthy (read_answer w sid ''creds'')
      then (Inr \<lparr>a_session = sid, creds = read_answer w sid ''creds''\<rparr>,
            issue (Select sid ''creds'') w0)
      else (case initAuthCreds E (issue (Select sid ''creds'') w0) of
              (Inl e, w2) \<Rightarrow> (Inl e, w2)
            | (Inr fresh, w2) \<Rightarrow> (Inr \<lparr>a_session = sid, creds = fresh\<rparr>, w2)))"
proof -
  from getSupabaseClient_keeps [OF assms]
  have k: "auth_keys w0 = auth_keys w" "fault_of w0 = fault_of w"
    by simp_all
  have v: "read_answer w0 sid ''creds'' = read_answer w sid ''creds''"
    by (rule read_answer_same) (simp_all add: k)
  show ?thesis
    by (simp add: useSupabaseAuthState_def assms readData_def v)
qed

text \<open>
  C3, as amended. Constructing the adapter reads the key \<open>creds\<close> once and
  writes nothing to the table, so it never overwrites a row. When that read
  yields a present (truthy) value, which it does when the row exists with such a
  value and the read succeeds, the adapter holds that value as it is and
  \<open>initAuthCreds\<close> is not entered: no random bytes are drawn. \<open>initAuthCreds\<close> is
  entered exactly when the read yields no truthy value, which is the case for a
  missing row and also for a store error on the read while the row exists.
\<close>

theorem adapter_construction:
  "getSupabaseClient w = (Inr c, w0) \<longrightarrow>
     auth_keys (snd (useSupabaseAuthState E sid w)) = auth_keys w
   \<and> requests (snd (useSupabaseAuthState E sid w)) = requests w @ [Select sid ''creds'']
   \<and> (auth_keys w (sid, ''creds'') = Some v \<and> fault_of w (Select sid ''creds'') = NoFault \<longrightarrow>
        read_answer w sid ''creds'' = v)
   \<and> (truthy (read_answer w sid ''creds'') \<longrightarrow>
        fst (useSupabaseAuthState E sid w)
          = Inr \<lparr>a_session = sid, creds = read_answer w sid ''creds''\<rparr>
        \<and> random_pos (snd (useSupabaseAuthState E sid w)) = random_pos w)
   \<and> (random_pos (snd (useSupabaseAuthState E sid w)) \<noteq> random_pos w
        \<longleftrightarrow> \<not> truthy (read_answer w sid ''creds''))"
proof
  assume g: "getSupabaseClient w = (Inr c, w0)"
  from getSupabaseClient_keeps [OF g]
  have k: "auth_keys w0 = auth_keys w" "requests w0 = requests w" "random_pos w0 = random_pos w"
    by simp_all
  note u = useSupabaseAuthState_unfold [OF g, of E sid]
  let ?w1 = "issue (Select sid ''creds'') w0"
  have w1: "auth_keys ?w1 = auth_keys w" "requests ?w1 = requests w @ [Select sid ''creds'']"
    "random_pos ?w1 = random_pos w"
    by (simp_all add: issue_def start_def finish_def k)
  have row: "auth_keys w (sid, ''creds'') = Some v \<and> fault_of w (Select sid ''creds'') = NoFault \<longrightarrow>
        read_answer w sid ''creds'' = v"
    by (simp add: read_answer_def)
  show "auth_keys (snd (useSupabaseAuthState E sid w)) = auth_keys w
   \<and> requests (snd (useSupabaseAuthState E sid w)) = requests w @ [Select sid ''creds'']
   \<and> (auth_keys w (sid, ''creds'') = Some v \<and> fault_of w (Select sid ''creds'') = NoFault \<longrightarrow>
        read_answer w sid ''creds'' = v)
   \<and> (truthy (read_answer w sid ''creds'') \<longrightarrow>
        fst (useSupabaseAuthState E sid w)
          = Inr \<lparr>a_session = sid, creds = read_answer w sid ''creds''\<rparr>
        \<and> random_pos (snd (useSupabaseAuthState E sid w)) = random_pos w)
   \<and> (random_pos (snd (useSupabaseAuthState E sid w)) \<noteq> random_pos w
        \<longleftrightarrow> \<not> truthy (read_answer w sid ''creds''))"
  proof (cases "truthy (read_answer w sid ''creds'')")
    case True
    with u have "useSupabaseAuthState E sid w =
        (Inr \<lparr>a_session = sid, creds = read_answer w sid ''creds''\<rparr>, ?w1)"
      by simp
    with True row w1 show ?thesis by simp
  next
    case False
    with u have "snd (useSupabaseAuthState E sid w) = snd (initAuthCreds E ?w1)"
      by (simp split: prod.splits sum.splits)
    moreover have "random_pos ?w1 < random_pos (snd (initAuthCreds E ?w1))"
      by (rule initAuthCreds_draws)
    ultimately show ?thesis
      using False row w1 by (simp add: initAuthCreds_keeps)
  qed
qed

lemma getSupabaseClient_again:
  "env w = env configured_world \<Longrightarrow> supabaseClient w = None \<Longrightarrow> clients_made w = 0 \<Longrightarrow>
   getSupabaseClient w = (Inr first_client, w\<lparr>clients_made := 1, supabaseClient := Some first_client\<rparr>)"
  by (simp add: getSupabaseClient_def configured_world_def bare_world_def env_truthy_def
        createClient_def first_client_def)

theorem adapter_construction_witness:
  "auth_keys populated_world (''s1'', ''creds'') = Some stored_identity
   \<and> fault_of populated_world (Select ''s1'' ''creds'') = NoFault
   \<and> truthy (read_answer populated_world ''s1'' ''creds'')
   \<and> fst (useSupabaseAuthState library_engine ''s1'' populated_world)
       = Inr \<lparr>a_session = ''s1'', creds = stored_identity\<rparr>
   \<and> random_pos (snd (useSupabaseAuthState library_engine ''s1'' populated_world))
       = random_pos populated_world"
proof -
  have h: "auth_keys populated_world (''s1'', ''creds'') = Some stored_identity
     \<and> fault_of populated_world (Select ''s1'' ''creds'') = NoFault"
    by (simp add: populated_world_def configured_world_def bare_world_def)
  have g: "getSupabaseClient populated_world =
      (Inr first_client, populated_world\<lparr>clients_made := 1, supabaseClient := Some first_client\<rparr>)"
    by (rule getSupabaseClient_again)
       (simp_all add: populated_world_def configured_world_def bare_world_def)
  note t = adapter_construction
             [of populated_world first_client
                 "populated_world\<lparr>clients_made := 1, supabaseClient := Some first_client\<rparr>"
                 library_engine "''s1''" stored_identity]
  from t g h have r: "read_answer populated_world ''s1'' ''creds'' = stored_identity"
    by blast
  then have tr: "truthy (read_answer populated_world ''s1'' ''creds'')"
    by (simp add: stored_identity_def)
  from t g tr
  have "fst (useSupabaseAuthState library_engine ''s1'' populated_world)
          = Inr \<lparr>a_session = ''s1'', creds = read_answer populated_world ''s1'' ''creds''\<rparr>
        \<and> random_pos (snd (useSupabaseAuthState library_engine ''s1'' populated_world))
            = random_pos populated_world"
    by blast
  with h tr r show ?thesis by simp
qed

text \<open>The claim as stated fails where the row exists and the read of it meets a
  store error: the row is not loaded. \<open>initAuthCreds\<close> is entered, draws the first
  private key and throws, and the construction rejects.\<close>

theorem bootstrap_on_read_error_counterexample:
  "auth_keys outage_world (''s1'', ''creds'') = Some stored_identity
   \<and> truthy stored_identity
   \<and> fst (useSupabaseAuthState library_engine ''s1'' outage_world)
       = Inl (Error ''TypeError: Cannot read properties of undefined (reading publicKey)'')
   \<and> random_pos (snd (useSupabaseAuthState library_engine ''s1'' outage_world))
       = random_pos outage_world + 32"
proof -
  have h: "auth_keys outage_world (''s1'', ''creds'') = Some stored_identity
     \<and> truthy stored_identity"
    by (simp add: outage_world_def stored_identity_def)
  have g: "getSupabaseClient outage_world =
      (Inr first_client, outage_world\<lparr>clients_made := 1, supabaseClient := Some first_client\<rparr>)"
    by (rule getSupabaseClient_again)
       (simp_all add: outage_world_def configured_world_def bare_world_def)
  have r: "read_answer outage_world ''s1'' ''creds'' = JNull"
    by (simp add: read_answer_def outage_world_def)
  have c: "required_Curve library_engine = None"
    by (simp add: required_Curve_def library_engine_def)
  show ?thesis
    using h
    by (simp add: useSupabaseAuthState_unfold [OF g] r initAuthCreds_no_curve [OF c]
          issue_def start_def finish_def)
qed

subsection \<open>Uploading media\<close>

text \<open>
  C9. \<open>uploadMedia\<close> requests an upload to the path
  \<open><sessionId>/<messageId><extension>\<close> with \<open>upsert: true\<close>. When the upload is
  performed, the object at the path that the answer names is the uploaded one
  (an earlier object there is replaced, the other paths keep theirs), and after
  the upload has completed a signed URL for that path and 3600 seconds is
  requested. If that request is answered with an error, the result is still a
  success with the stored path and a null URL, and the stored object stays; if
  it is answered with a URL, the result carries the path and the URL.
\<close>

theorem uploadMedia_outcomes:
  "fault_of w (Upload (st_sessionId st @ ''/'' @ messageId @ extension) buffer mimeType True) = NoFault
   \<longrightarrow>
     requests (snd (uploadMedia st messageId buffer mimeType extension w)) =
       requests w @ [Upload (st_sessionId st @ ''/'' @ messageId @ extension) buffer mimeType True,
                     CreateSignedUrl (st_sessionId st @ ''/'' @ messageId @ extension) 3600]
   \<and> timeline (snd (uploadMedia st messageId buffer mimeType extension w)) =
       timeline w @
         [Start (Upload (st_sessionId st @ ''/'' @ messageId @ extension) buffer mimeType True),
          Finish (Upload (st_sessionId st @ ''/'' @ messageId @ extension) buffer mimeType True),
          Start (CreateSignedUrl (st_sessionId st @ ''/'' @ messageId @ extension) 3600),
          Finish (CreateSignedUrl (st_sessionId st @ ''/'' @ messageId @ extension) 3600)]
   \<and> map_of (bucket (snd (uploadMedia st messageId buffer mimeType extension w)))
         (upload_path w (st_sessionId st @ ''/'' @ messageId @ extension)) = Some (buffer, mimeType)
   \<and> (\<forall>q. q \<noteq> upload_path w (st_sessionId st @ ''/'' @ messageId @ extension) \<longrightarrow>
          map_of (bucket (snd (uploadMedia st messageId buffer mimeType extension w))) q =
          map_of (bucket w) q)
   \<and> (fault_of w (CreateSignedUrl (st_sessionId st @ ''/'' @ messageId @ extension) 3600) = NoFault
        \<longrightarrow> fst (uploadMedia st messageId buffer mimeType extension w) =
              Uploaded (upload_path w (st_sessionId st @ ''/'' @ messageId @ extension))
                (Some (signed_url w (st_sessionId st @ ''/'' @ messageId @ extension) 3600)))
   \<and> (\<forall>m. fault_of w (CreateSignedUrl (st_sessionId st @ ''/'' @ messageId @ extension) 3600)
             = ReturnsError m
        \<longrightarrow> fst (uploadMedia st messageId buffer mimeType extension w) =
              Uploaded (upload_path w (st_sessionId st @ ''/'' @ messageId @ extension)) None)"
  by (simp add: uploadMedia_def getStoragePath_def Let_def issue_def start_def finish_def
        console_log_def update_conv' split: fault.splits)

theorem uploadMedia_outcomes_witness:
  "fault_of unsigned_world (Upload ''s1/m1.jpg'' [1, 2, 3] ''image/jpeg'' True) = NoFault
   \<and> fault_of unsigned_world (CreateSignedUrl ''s1/m1.jpg'' 3600) = ReturnsError ''denied''
   \<and> fst (uploadMedia storage_s1 ''m1'' [1, 2, 3] ''image/jpeg'' ''.jpg'' unsigned_world)
       = Uploaded ''s1/m1.jpg'' None
   \<and> map_of (bucket (snd (uploadMedia storage_s1 ''m1'' [1, 2, 3] ''image/jpeg'' ''.jpg''
                             unsigned_world))) ''s1/m1.jpg''
       = Some ([1, 2, 3], ''image/jpeg'')"
proof -
  have h: "fault_of unsigned_world
             (Upload (st_sessionId storage_s1 @ ''/'' @ ''m1'' @ ''.jpg'') [1, 2, 3] ''image/jpeg'' True)
           = NoFault"
    and u: "fault_of unsigned_world
              (CreateSignedUrl (st_sessionId storage_s1 @ ''/'' @ ''m1'' @ ''.jpg'') 3600)
            = ReturnsError ''denied''"
    and p: "upload_path unsigned_world (st_sessionId storage_s1 @ ''/'' @ ''m1'' @ ''.jpg'')
            = ''s1/m1.jpg''"
    by (simp_all add: unsigned_world_def configured_world_def bare_world_def storage_s1_def)
  from uploadMedia_outcomes [of unsigned_world storage_s1 "''m1''" "''.jpg''" "[1, 2, 3]" "''image/jpeg''"] h
  have "map_of (bucket (snd (uploadMedia storage_s1 ''m1'' [1, 2, 3] ''image/jpeg'' ''.jpg''
                          unsigned_world)))
          (upload_path unsigned_world (st_sessionId storage_s1 @ ''/'' @ ''m1'' @ ''.jpg''))
          = Some ([1, 2, 3], ''image/jpeg'')"
    and "\<forall>m. fault_of unsigned_world
                 (CreateSignedUrl (st_sessionId storage_s1 @ ''/'' @ ''m1'' @ ''.jpg'') 3600)
             = ReturnsError m
        \<longrightarrow> fst (uploadMedia storage_s1 ''m1'' [1, 2, 3] ''image/jpeg'' ''.jpg'' unsigned_world) =
              Uploaded (upload_path unsigned_world (st_sessionId storage_s1 @ ''/'' @ ''m1'' @ ''.jpg''))
                None"
    by blast+
  with h u p show ?thesis
    by (simp add: storage_s1_def)
qed

subsection \<open>Deleting a session\<close>

lemma clearAll_requests: "requests (clearAll sid w) = requests w @ [DeleteAll sid]"
  by (simp add: clearAll_def issue_def start_def finish_def Let_def split: fault.splits)

lemma deleteAllMedia_requests:
  "\<exists>rest. requests (deleteAllMedia st w) = requests w @ ListObjects (st_sessionId st) # rest"
  by (simp add: deleteAllMedia_def issue_def start_def finish_def console_log_def Let_def split: fault.splits)

lemma logout_effect:
  "sessions (snd (logout h m)) = sessions m"
  "\<exists>rest. requests (backend (snd (logout h m))) =
      requests (backend m) @ DeleteAll (sessionId h) # ListObjects (sessionId h) # rest"
proof -
  show "sessions (snd (logout h m)) = sessions m"
    by (simp add: logout_def Let_def)
  obtain rest where
    "requests (deleteAllMedia \<lparr>st_sessionId = sessionId h,
                 st_bucket = getStorageBucket (clearAll (sessionId h) (backend m))\<rparr>
               (clearAll (sessionId h) (backend m))) =
     requests (clearAll (sessionId h) (backend m)) @ ListObjects (sessionId h) # rest"
    using deleteAllMedia_requests
      [of "\<lparr>st_sessionId = sessionId h,
            st_bucket = getStorageBucket (clearAll (sessionId h) (backend m))\<rparr>"
          "clearAll (sessionId h) (backend m)"]
    by auto
  then show "\<exists>rest. requests (backend (snd (logout h m))) =
      requests (backend m) @ DeleteAll (sessionId h) # ListObjects (sessionId h) # rest"
    by (simp add: logout_def Let_def clearAll_requests)
qed

lemma registry_key: "registry_ok m \<Longrightarrow> map_of (sessions m) sid = Some h \<Longrightarrow> sessionId h = sid"
  by (auto simp: registry_ok_def dest: map_of_SomeD)

text \<open>
  C1. For an id with no registered handle \<open>deleteSession\<close> returns the not-found
  failure and changes nothing. For an id with a registered handle it calls
  \<open>logout\<close> on the handle (the teardown requests for the credentials and the
  media of the session are issued) and then removes the handle: the result is
  the success result, the id is no longer registered and no entry of
  \<open>getAllSessions\<close> carries it, and the other handles stay. This holds for every
  behaviour of the stores, so also when the teardown requests fail.
\<close>

theorem deleteSession_removes:
  "(map_of (sessions m) sid = None \<longrightarrow>
      deleteSession sid m = (\<lparr>success = False, message = ''Session not found'', data = None\<rparr>, m))
   \<and> (registry_ok m \<and> map_of (sessions m) sid = Some h \<longrightarrow>
        fst (deleteSession sid m)
          = \<lparr>success = True, message = ''Session deleted successfully'', data = None\<rparr>
      \<and> sessions (snd (deleteSession sid m)) = AList.delete sid (sessions m)
      \<and> getSession sid (snd (deleteSession sid m)) = None
      \<and> sid \<notin> info_id ` set (getAllSessions (snd (deleteSession sid m)))
      \<and> (\<exists>rest. requests (backend (snd (deleteSession sid m))) =
             requests (backend m) @ DeleteAll sid # ListObjects sid # rest))"
proof (intro conjI impI)
  assume "map_of (sessions m) sid = None"
  then show "deleteSession sid m
      = (\<lparr>success = False, message = ''Session not found'', data = None\<rparr>, m)"
    by (simp add: deleteSession_def)
next
  assume a: "registry_ok m \<and> map_of (sessions m) sid = Some h"
  then have id: "sessionId h = sid"
    using registry_key [of m sid h] by blast
  have d: "deleteSession sid m =
      (\<lparr>success = True, message = ''Session deleted successfully'', data = None\<rparr>,
       (snd (logout h m))\<lparr>sessions := AList.delete sid (sessions m)\<rparr>)"
    using a by (simp add: deleteSession_def split_beta logout_effect(1))
  show "fst (deleteSession sid m)
          = \<lparr>success = True, message = ''Session deleted successfully'', data = None\<rparr>"
    by (simp add: d)
  show s: "sessions (snd (deleteSession sid m)) = AList.delete sid (sessions m)"
    by (simp add: d)
  show "getSession sid (snd (deleteSession sid m)) = None"
    by (simp add: getSession_def s delete_conv')
  have "\<forall>kh \<in> set (AList.delete sid (sessions m)). sessionId (snd kh) \<noteq> sid"
    using a by (auto simp: registry_ok_def AList.delete_eq)
  then show "sid \<notin> info_id ` set (getAllSessions (snd (deleteSession sid m)))"
    by (auto simp: getAllSessions_def s getInfo_def)
  show "\<exists>rest. requests (backend (snd (deleteSession sid m))) =
             requests (backend m) @ DeleteAll sid # ListObjects sid # rest"
    using logout_effect(2) [of h m] by (simp add: d id)
qed


theorem deleteSession_removes_witness:
  "registry_ok busy_manager \<and> map_of (sessions busy_manager) ''s1'' = Some handle_s1
   \<and> fault_of (backend busy_manager) (DeleteAll ''s1'') = Rejects ''down''
   \<and> fault_of (backend busy_manager) (ListObjects ''s1'') = Rejects ''down''
   \<and> success (fst (deleteSession ''s1'' busy_manager))
   \<and> sessions (snd (deleteSession ''s1'' busy_manager)) = [(''s2'', handle_s2)]
   \<and> map_of (sessions busy_manager) ''s3'' = None
   \<and> deleteSession ''s3'' busy_manager =
       (\<lparr>success = False, message = ''Session not found'', data = None\<rparr>, busy_manager)"
proof -
  have h: "registry_ok busy_manager \<and> map_of (sessions busy_manager) ''s1'' = Some handle_s1"
    by (simp add: registry_ok_def busy_manager_def idle_manager_def handle_s1_def handle_s2_def)
  have n: "map_of (sessions busy_manager) ''s3'' = None"
    by (simp add: busy_manager_def idle_manager_def)
  have f: "fault_of (backend busy_manager) (DeleteAll ''s1'') = Rejects ''down''
     \<and> fault_of (backend busy_manager) (ListObjects ''s1'') = Rejects ''down''"
    by (simp add: busy_manager_def idle_manager_def down_world_def)
  from deleteSession_removes [of busy_manager "''s1''" handle_s1] h
  have "fst (deleteSession ''s1'' busy_manager)
          = \<lparr>success = True, message = ''Session deleted successfully'', data = None\<rparr>"
    and "sessions (snd (deleteSession ''s1'' busy_manager))
          = AList.delete ''s1'' (sessions busy_manager)"
    by blast+
  then have 1: "success (fst (deleteSession ''s1'' busy_manager))"
    and 2: "sessions (snd (deleteSession ''s1'' busy_manager)) = [(''s2'', handle_s2)]"
    by (simp_all add: busy_manager_def idle_manager_def)
  from deleteSession_removes [of busy_manager "''s3''" handle_s1] n
  have 3: "deleteSession ''s3'' busy_manager =
       (\<lparr>success = False, message = ''Session not found'', data = None\<rparr>, busy_manager)"
    by blast
  from h n f 1 2 3 show ?thesis by blast
qed

subsection \<open>One handle per id\<close>

lemma connect_handle:
  "sessionId (fst (connect h m)) = sessionId h"
  "connectionStatus (fst (connect h m)) =
     (if connectionStatus h = Connecting \<or> connectionStatus h = Connected then connectionStatus h
      else first_status (attempt_outcome m (sessionId h)))"
  "metadata (fst (connect h m)) = metadata h"
  "webhooks (fst (connect h m)) = webhooks h"
  by (simp_all add: connect_def Let_def first_status_def)

lemma connect_manager:
  "sessions (snd (connect h m)) = sessions m"
  "constructed (snd (connect h m)) = constructed m"
  "connect_calls (snd (connect h m)) = connect_calls m @ [sessionId h]"
  "attempt_outcome (snd (connect h m)) = attempt_outcome m"
  "backend (snd (connect h m)) = backend m"
  by (simp_all add: connect_def Let_def)

lemma updateConfig_handle:
  "sessionId (fst (updateConfig opts h m)) = sessionId h"
  "connectionStatus (fst (updateConfig opts h m)) = connectionStatus h"
  by (simp_all add: updateConfig_def Let_def)

lemma updateConfig_manager:
  "sessions (snd (updateConfig opts h m)) = sessions m"
  "constructed (snd (updateConfig opts h m)) = constructed m"
  "connect_calls (snd (updateConfig opts h m)) = connect_calls m"
  "attempt_outcome (snd (updateConfig opts h m)) = attempt_outcome m"
  "backend (snd (updateConfig opts h m)) = backend m"
  by (simp_all add: updateConfig_def saveConfig_def Let_def)

text \<open>The handle as \<open>createSession\<close> leaves it after the optional config update.\<close>

lemma registry_ok_update:
  assumes "registry_ok m" and "sessionId h = sid" and "sessions m' = AList.update sid h (sessions m)"
  shows "registry_ok m'"
proof -
  have "distinct (map fst (sessions m'))"
    using assms by (simp add: registry_ok_def distinct_update)
  moreover have "sessionId (snd kh) = fst kh" if "kh \<in> set (sessions m')" for kh
  proof -
    from that assms(3) have "map_of (AList.update sid h (sessions m)) (fst kh) = Some (snd kh)"
      using \<open>distinct (map fst (sessions m'))\<close> by simp
    then have "(fst kh = sid \<and> snd kh = h) \<or> map_of (sessions m) (fst kh) = Some (snd kh)"
      by (auto simp: update_conv' split: if_splits)
    then show ?thesis
      using assms(1,2) by (auto simp: registry_ok_def dest: map_of_SomeD)
  qed
  ultimately show ?thesis
    by (simp add: registry_ok_def)
qed

lemma update_present_keys:
  "map_of al k = Some v \<Longrightarrow> map fst (AList.update k v' al) = map fst al"
  by (simp add: update_keys) (metis domI dom_map_of_conv_image_fst)

lemma one_entry:
  "distinct (map fst al) \<Longrightarrow> k \<in> set (map fst al) \<Longrightarrow>
   length (filter (\<lambda>kh. fst kh = k) al) = 1"
proof (induction al)
  case Nil
  then show ?case by simp
next
  case (Cons a al)
  show ?case
  proof (cases "fst a = k")
    case True
    with Cons.prems have "k \<notin> fst ` set al" by simp
    then have "\<forall>kh \<in> set al. fst kh \<noteq> k" by (metis image_eqI)
    then have "filter (\<lambda>kh. fst kh = k) al = []"
      by (simp add: filter_empty_conv)
    with True show ?thesis by simp
  next
    case False
    with Cons show ?thesis by auto
  qed
qed

lemma createSession_existing:
  assumes v: "valid_id sid" and r: "registry_ok m" and e: "map_of (sessions m) sid = Some h"
  shows "constructed (snd (createSession sid opts m)) = constructed m"
    and "map fst (sessions (snd (createSession sid opts m))) = map fst (sessions m)"
    and "registry_ok (snd (createSession sid opts m))"
    and "connectionStatus h = Connected \<Longrightarrow>
           fst (createSession sid opts m) =
             \<lparr>success = False, message = ''Session already connected'',
              data = Some (getInfo (if opt_metadata opts \<noteq> None \<or> opt_webhooks opts \<noteq> None
                                    then fst (updateConfig opts h m) else h))\<rparr>
           \<and> connect_calls (snd (createSession sid opts m)) = connect_calls m"
    and "connectionStatus h \<noteq> Connected \<Longrightarrow>
           success (fst (createSession sid opts m))
           \<and> message (fst (createSession sid opts m)) = ''Reconnecting existing session''
           \<and> connect_calls (snd (createSession sid opts m)) = connect_calls m @ [sid]"
proof -
  have id: "sessionId h = sid"
    using registry_key [OF r e] .
  define h1 where "h1 = (if opt_metadata opts \<noteq> None \<or> opt_webhooks opts \<noteq> None
                          then fst (updateConfig opts h m) else h)"
  define m1 where "m1 = (if opt_metadata opts \<noteq> None \<or> opt_webhooks opts \<noteq> None
                          then snd (updateConfig opts h m) else m)"
  have h1: "sessionId h1 = sid" "connectionStatus h1 = connectionStatus h"
    by (simp_all add: h1_def updateConfig_handle id)
  have m1: "sessions m1 = sessions m" "constructed m1 = constructed m"
    "connect_calls m1 = connect_calls m"
    by (simp_all add: m1_def updateConfig_manager)
  have c: "createSession sid opts m =
      (if connectionStatus h = Connected
       then (\<lparr>success = False, message = ''Session already connected'',
               data = Some (getInfo h1)\<rparr>,
             m1\<lparr>sessions := AList.update sid h1 (sessions m)\<rparr>)
       else (\<lparr>success = True, message = ''Reconnecting existing session'',
               data = Some (getInfo (fst (connect h1 m1)))\<rparr>,
             (snd (connect h1 m1))\<lparr>sessions := AList.update sid (fst (connect h1 m1)) (sessions m)\<rparr>))"
    using v e
    by (simp add: createSession_def valid_id_def h1_def m1_def split_beta
          updateConfig_handle updateConfig_manager connect_manager)
  show "constructed (snd (createSession sid opts m)) = constructed m"
    by (simp add: c m1 connect_manager)
  show "map fst (sessions (snd (createSession sid opts m))) = map fst (sessions m)"
    using e by (simp add: c update_present_keys)
  show "registry_ok (snd (createSession sid opts m))"
  proof (cases "connectionStatus h = Connected")
    case True
    then show ?thesis
      using registry_ok_update [OF r h1(1), of "m1\<lparr>sessions := AList.update sid h1 (sessions m)\<rparr>"]
      by (simp add: c)
  next
    case False
    have "sessionId (fst (connect h1 m1)) = sid"
      by (simp add: connect_handle h1)
    from registry_ok_update [OF r this,
        of "(snd (connect h1 m1))\<lparr>sessions := AList.update sid (fst (connect h1 m1)) (sessions m)\<rparr>"]
    show ?thesis
      using False by (simp add: c)
  qed
  show "connectionStatus h = Connected \<Longrightarrow>
           fst (createSession sid opts m) =
             \<lparr>success = False, message = ''Session already connected'',
              data = Some (getInfo (if opt_metadata opts \<noteq> None \<or> opt_webhooks opts \<noteq> None
                                    then fst (updateConfig opts h m) else h))\<rparr>
           \<and> connect_calls (snd (createSession sid opts m)) = connect_calls m"
    by (simp add: c m1) (simp add: h1_def)
  show "connectionStatus h \<noteq> Connected \<Longrightarrow>
           success (fst (createSession sid opts m))
           \<and> message (fst (createSession sid opts m)) = ''Reconnecting existing session''
           \<and> connect_calls (snd (createSession sid opts m)) = connect_calls m @ [sid]"
    by (simp add: c m1 connect_manager h1)
qed

lemma createSession_fresh:
  assumes v: "valid_id sid" and r: "registry_ok m" and e: "map_of (sessions m) sid = None"
  shows "constructed (snd (createSession sid opts m)) = Suc (constructed m)"
    and "map fst (sessions (snd (createSession sid opts m))) = map fst (sessions m) @ [sid]"
    and "registry_ok (snd (createSession sid opts m))"
    and "map_of (sessions (snd (createSession sid opts m))) sid =
           Some ((new_session sid opts)\<lparr>connectionStatus := first_status (attempt_outcome m sid)\<rparr>)"
    and "fst (createSession sid opts m) =
           \<lparr>success = True, message = ''Session created'',
            data = Some (getInfo ((new_session sid opts)
                     \<lparr>connectionStatus := first_status (attempt_outcome m sid)\<rparr>))\<rparr>"
proof -
  define s where "s = new_session sid opts"
  define m2 where "m2 = (saveConfig s (m\<lparr>constructed := Suc (constructed m)\<rparr>))
                           \<lparr>sessions := AList.update sid s (sessions m)\<rparr>"
  have s: "sessionId s = sid" "connectionStatus s = Disconnected"
    by (simp_all add: s_def new_session_def)
  have m2: "constructed m2 = Suc (constructed m)" "attempt_outcome m2 = attempt_outcome m"
    by (simp_all add: m2_def saveConfig_def)
  have h3: "fst (connect s m2) = s\<lparr>connectionStatus := first_status (attempt_outcome m sid)\<rparr>"
    by (simp add: connect_def Let_def s m2 first_status_def)
  have h3': "fst (connect (new_session sid opts) m2) =
      (new_session sid opts)\<lparr>connectionStatus := first_status (attempt_outcome m sid)\<rparr>"
    using h3 by (simp add: s_def)
  have c: "createSession sid opts m =
      (\<lparr>success = True, message = ''Session created'', data = Some (getInfo (fst (connect s m2)))\<rparr>,
       (snd (connect s m2))\<lparr>sessions := AList.update sid (fst (connect s m2)) (sessions m)\<rparr>)"
    using v e
    by (simp add: createSession_def valid_id_def split_beta Let_def s_def m2_def
          connect_manager saveConfig_def)
  have notin: "sid \<notin> set (map fst (sessions m))"
    using e by (simp add: map_of_eq_None_iff)
  show "constructed (snd (createSession sid opts m)) = Suc (constructed m)"
    by (simp add: c connect_manager m2)
  show "map fst (sessions (snd (createSession sid opts m))) = map fst (sessions m) @ [sid]"
    using notin by (simp add: c update_keys)
  have "sessionId (fst (connect s m2)) = sid"
    by (simp add: connect_handle s)
  from registry_ok_update [OF r this,
      of "(snd (connect s m2))\<lparr>sessions := AList.update sid (fst (connect s m2)) (sessions m)\<rparr>"]
  show "registry_ok (snd (createSession sid opts m))"
    by (simp add: c)
  show "map_of (sessions (snd (createSession sid opts m))) sid =
           Some ((new_session sid opts)\<lparr>connectionStatus := first_status (attempt_outcome m sid)\<rparr>)"
    using h3' by (simp add: c s_def update_conv')
  show "fst (createSession sid opts m) =
           \<lparr>success = True, message = ''Session created'',
            data = Some (getInfo ((new_session sid opts)
                     \<lparr>connectionStatus := first_status (attempt_outcome m sid)\<rparr>))\<rparr>"
    using h3' by (simp add: c s_def)
qed


text \<open>
  C6. Two calls of \<open>createSession\<close> for the same valid id: the second call
  constructs no handle and leaves the ids of the registry as they are, with
  exactly one handle under the id. When the registered handle is \<open>connected\<close> the
  second call returns the failure result carrying the info snapshot of that
  handle (after the config update, if options were given) and tells no handle
  to connect; otherwise it tells the registered handle to \<open>connect()\<close> and
  returns the success result of the reconnect path.
\<close>

theorem createSession_twice:
  assumes "valid_id sid" and "registry_ok m"
  shows "\<exists>h. map_of (sessions (snd (createSession sid o1 m))) sid = Some h
     \<and> constructed (snd (createSession sid o2 (snd (createSession sid o1 m))))
         = constructed (snd (createSession sid o1 m))
     \<and> constructed (snd (createSession sid o1 m)) \<le> Suc (constructed m)
     \<and> map fst (sessions (snd (createSession sid o2 (snd (createSession sid o1 m)))))
         = map fst (sessions (snd (createSession sid o1 m)))
     \<and> length (filter (\<lambda>kh. fst kh = sid)
          (sessions (snd (createSession sid o2 (snd (createSession sid o1 m)))))) = 1
     \<and> (if connectionStatus h = Connected
         then fst (createSession sid o2 (snd (createSession sid o1 m))) =
                \<lparr>success = False, message = ''Session already connected'',
                 data = Some (getInfo (if opt_metadata o2 \<noteq> None \<or> opt_webhooks o2 \<noteq> None
                                       then fst (updateConfig o2 h (snd (createSession sid o1 m)))
                                       else h))\<rparr>
              \<and> connect_calls (snd (createSession sid o2 (snd (createSession sid o1 m))))
                  = connect_calls (snd (createSession sid o1 m))
         else success (fst (createSession sid o2 (snd (createSession sid o1 m))))
              \<and> message (fst (createSession sid o2 (snd (createSession sid o1 m))))
                  = ''Reconnecting existing session''
              \<and> connect_calls (snd (createSession sid o2 (snd (createSession sid o1 m))))
                  = connect_calls (snd (createSession sid o1 m)) @ [sid])"
proof -
  let ?m1 = "snd (createSession sid o1 m)"
  let ?m2 = "snd (createSession sid o2 ?m1)"
  have first: "registry_ok ?m1 \<and> (\<exists>h. map_of (sessions ?m1) sid = Some h)
      \<and> constructed ?m1 \<le> Suc (constructed m)"
  proof (cases "map_of (sessions m) sid")
    case None
    from createSession_fresh [OF assms None, of o1] show ?thesis by simp
  next
    case (Some h0)
    from createSession_existing(1,2,3) [OF assms Some, of o1]
    have "registry_ok ?m1" "constructed ?m1 = constructed m"
      and "map fst (sessions ?m1) = map fst (sessions m)"
      by simp_all
    moreover from this(3) Some have "sid \<in> fst ` set (sessions ?m1)"
      by (metis domI dom_map_of_conv_image_fst set_map)
    then have "\<exists>h. map_of (sessions ?m1) sid = Some h"
      by (metis domD dom_map_of_conv_image_fst)
    ultimately show ?thesis by simp
  qed
  then obtain h where ok1: "registry_ok ?m1" and h: "map_of (sessions ?m1) sid = Some h"
    and le: "constructed ?m1 \<le> Suc (constructed m)"
    by blast
  note second = createSession_existing [OF assms(1) ok1 h, of o2]
  have keys: "map fst (sessions ?m2) = map fst (sessions ?m1)"
    by (rule second(2))
  have "distinct (map fst (sessions ?m2))" and "sid \<in> set (map fst (sessions ?m2))"
    using second(3) keys h by (auto simp: registry_ok_def dest: map_of_SomeD intro: rev_image_eqI)
  then have one: "length (filter (\<lambda>kh. fst kh = sid) (sessions ?m2)) = 1"
    by (simp add: one_entry)
  show ?thesis
  proof (intro exI [of _ h] conjI)
    show "map_of (sessions ?m1) sid = Some h" by (rule h)
    show "constructed ?m2 = constructed ?m1" by (rule second(1))
    show "constructed ?m1 \<le> Suc (constructed m)" by (rule le)
    show "map fst (sessions ?m2) = map fst (sessions ?m1)" by (rule keys)
    show "length (filter (\<lambda>kh. fst kh = sid) (sessions ?m2)) = 1" by (rule one)
    show "if connectionStatus h = Connected
         then fst (createSession sid o2 ?m1) =
                \<lparr>success = False, message = ''Session already connected'',
                 data = Some (getInfo (if opt_metadata o2 \<noteq> None \<or> opt_webhooks o2 \<noteq> None
                                       then fst (updateConfig o2 h ?m1) else h))\<rparr>
              \<and> connect_calls ?m2 = connect_calls ?m1
         else success (fst (createSession sid o2 ?m1))
              \<and> message (fst (createSession sid o2 ?m1)) = ''Reconnecting existing session''
              \<and> connect_calls ?m2 = connect_calls ?m1 @ [sid]"
      using second(4,5) by (cases "connectionStatus h = Connected") simp_all
  qed
qed

theorem createSession_twice_witness:
  "valid_id ''wa-1'' \<and> registry_ok idle_manager
   \<and> constructed (snd (createSession ''wa-1'' no_options
                          (snd (createSession ''wa-1'' no_options idle_manager)))) = 1
   \<and> map fst (sessions (snd (createSession ''wa-1'' no_options
                          (snd (createSession ''wa-1'' no_options idle_manager))))) = [''wa-1'']"
proof -
  have v: "valid_id ''wa-1''"
    by (simp add: valid_id_def id_char_def char_code_def)
  have r: "registry_ok idle_manager"
    by (simp add: registry_ok_def idle_manager_def)
  have e: "map_of (sessions idle_manager) ''wa-1'' = None"
    by (simp add: idle_manager_def)
  from createSession_fresh(1,2) [OF v r e, of no_options]
  have "constructed (snd (createSession ''wa-1'' no_options idle_manager)) = 1"
    and "map fst (sessions (snd (createSession ''wa-1'' no_options idle_manager))) = [''wa-1'']"
    by (simp_all add: idle_manager_def)
  with createSession_twice [OF v r, of no_options no_options] v r
  show ?thesis by auto
qed

subsection \<open>Restoring the sessions at startup\<close>

lemma restore_one_completes:
  assumes "connect_error m sid = None"
  shows "fst (restore_one sid m) = Inr ()"
    and "sessions (snd (restore_one sid m)) =
           AList.update sid (restored_handle (attempt_outcome m) sid) (sessions m)"
    and "connect_calls (snd (restore_one sid m)) = connect_calls m @ [sid]"
    and "constructed (snd (restore_one sid m)) = Suc (constructed m)"
    and "attempt_outcome (snd (restore_one sid m)) = attempt_outcome m"
    and "connect_error (snd (restore_one sid m)) = connect_error m"
  using assms
  by (simp_all add: restore_one_def connect_call_def restored_handle_def connect_def
        new_session_def first_status_def Let_def)

lemma restore_one_rejects:
  assumes "connect_error m sid = Some e"
  shows "fst (restore_one sid m) = Inl (Error e)"
    and "sessions (snd (restore_one sid m)) =
           AList.update sid (new_session sid \<lparr>opt_metadata = None, opt_webhooks = None\<rparr>) (sessions m)"
    and "connect_calls (snd (restore_one sid m)) = connect_calls m @ [sid]"
    and "constructed (snd (restore_one sid m)) = Suc (constructed m)"
    and "backend (snd (restore_one sid m)) = console_log (''Restoring session: '' @ sid) (backend m)"
  using assms
  by (simp_all add: restore_one_def connect_call_def new_session_def Let_def)

lemma restore_all_completes:
  "\<forall>sid \<in> set ids. connect_error m sid = None \<Longrightarrow>
   fst (restore_all ids m) = Inr ()
   \<and> connect_calls (snd (restore_all ids m)) = connect_calls m @ ids
   \<and> constructed (snd (restore_all ids m)) = constructed m + length ids
   \<and> map_of (sessions (snd (restore_all ids m))) =
       (\<lambda>k. if k \<in> set ids then Some (restored_handle (attempt_outcome m) k)
            else map_of (sessions m) k)"
proof (induction ids arbitrary: m)
  case Nil
  then show ?case by simp
next
  case (Cons x xs)
  then have x: "connect_error m x = None" by simp
  note r = restore_one_completes [OF x]
  let ?m' = "snd (restore_one x m)"
  have step: "restore_all (x # xs) m = restore_all xs ?m'"
    using r(1) by (cases "restore_one x m") auto
  have "\<forall>sid \<in> set xs. connect_error ?m' sid = None"
    using Cons.prems by (simp add: r)
  from Cons.IH [OF this] show ?case
    unfolding step by (auto simp: r update_conv' fun_eq_iff)
qed

lemma discover_catalog_fields:
  "sessions (snd (discover_catalog m)) = sessions m"
  "connect_calls (snd (discover_catalog m)) = connect_calls m"
  "constructed (snd (discover_catalog m)) = constructed m"
  "attempt_outcome (snd (discover_catalog m)) = attempt_outcome m"
  "connect_error (snd (discover_catalog m)) = connect_error m"
  by (simp_all add: discover_catalog_def Let_def
        split: prod.splits sum.splits error.splits fault.splits)

lemma discover_folder_fields:
  "sessions (snd (discover_folder ids m)) = sessions m"
  "connect_calls (snd (discover_folder ids m)) = connect_calls m"
  "constructed (snd (discover_folder ids m)) = constructed m"
  "attempt_outcome (snd (discover_folder ids m)) = attempt_outcome m"
  "connect_error (snd (discover_folder ids m)) = connect_error m"
  by (simp_all add: discover_folder_def split: option.splits)

text \<open>Where the folder scan does not throw and no \<open>connect()\<close> rejects, every
  discovered id is registered and told to connect, each with the status of its
  own attempt.\<close>

lemma restore_without_rejection:
  assumes "fst (discover_folder (fst (discover_catalog m)) (snd (discover_catalog m))) = Inr ids"
    and "\<forall>sid \<in> set ids. connect_error m sid = None"
  shows "connect_calls (initExistingSessions m) = connect_calls m @ ids"
    and "constructed (initExistingSessions m) = constructed m + length ids"
    and "\<forall>sid \<in> set ids.
           getSession sid (initExistingSessions m) = Some (restored_handle (attempt_outcome m) sid)"
proof -
  let ?m2 = "snd (discover_folder (fst (discover_catalog m)) (snd (discover_catalog m)))"
  have same: "connect_calls ?m2 = connect_calls m" "constructed ?m2 = constructed m"
    "attempt_outcome ?m2 = attempt_outcome m" "connect_error ?m2 = connect_error m"
    by (simp_all add: discover_folder_fields discover_catalog_fields)
  have "\<forall>sid \<in> set ids. connect_error ?m2 sid = None"
    using assms(2) by (simp add: same)
  note all = restore_all_completes [OF this]
  obtain u m3 where r: "restore_all ids ?m2 = (Inr u, m3)"
    using all by (cases "restore_all ids ?m2") auto
  then have m3: "m3 = snd (restore_all ids ?m2)" by simp
  have i: "initExistingSessions m =
      m3\<lparr>backend := console_log ''Restored sessions'' (backend m3)\<rparr>"
    using assms(1) r
    by (simp add: initExistingSessions_def split_beta prod_eq_iff split: prod.splits)
  show "connect_calls (initExistingSessions m) = connect_calls m @ ids"
    and "constructed (initExistingSessions m) = constructed m + length ids"
    using all by (simp_all add: i m3 same)
  show "\<forall>sid \<in> set ids.
           getSession sid (initExistingSessions m) = Some (restored_handle (attempt_outcome m) sid)"
    using all by (simp add: i m3 same getSession_def)
qed



subsection \<open>The registry stays in order\<close>

text \<open>The condition \<open>registry_ok\<close> assumed above holds for the registry of a new
  manager and is kept by every operation, and the ids discovered at startup are
  pairwise different.\<close>

lemma set_add_distinct: "distinct xs \<Longrightarrow> distinct (fold set_add ys xs)"
  by (induction ys arbitrary: xs) (simp_all add: set_add_def)

lemma scan_folder_distinct:
  "distinct ids \<Longrightarrow> scan_folder es ids = Inr ids' \<Longrightarrow> distinct ids'"
  by (induction es ids rule: scan_folder.induct) (simp_all add: set_add_def split: if_splits)

lemma discovered_distinct: "distinct (discovered m)"
proof -
  have "distinct (fst (discover_catalog m))"
    by (simp add: discover_catalog_def Let_def set_add_distinct
          split: prod.splits sum.splits error.splits fault.splits)
  then show ?thesis
    by (auto simp: discovered_def discover_folder_def
          split: option.splits sum.splits dest: scan_folder_distinct)
qed

lemma registry_ok_restore_one: "registry_ok m \<Longrightarrow> registry_ok (snd (restore_one sid m))"
proof (cases "connect_error m sid")
  case None
  assume "registry_ok m"
  then show ?thesis
    by (rule registry_ok_update [where sid = sid and h = "restored_handle (attempt_outcome m) sid"])
       (simp_all add: restore_one_completes [OF None] restored_handle_def new_session_def)
next
  case (Some e)
  assume "registry_ok m"
  then show ?thesis
    by (rule registry_ok_update
          [where sid = sid and h = "new_session sid \<lparr>opt_metadata = None, opt_webhooks = None\<rparr>"])
       (simp_all add: restore_one_rejects [OF Some] new_session_def)
qed

lemma registry_ok_sessions: "sessions m' = sessions m \<Longrightarrow> registry_ok m' = registry_ok m"
  by (simp add: registry_ok_def)

lemma registry_ok_restore_all: "registry_ok m \<Longrightarrow> registry_ok (snd (restore_all ids m))"
proof (induction ids arbitrary: m)
  case Nil
  then show ?case by simp
next
  case (Cons x xs)
  obtain r m' where s: "restore_one x m = (r, m')"
    by (cases "restore_one x m")
  from registry_ok_restore_one [OF Cons.prems, of x] s
  have ok: "registry_ok m'" by simp
  show ?case
  proof (cases r)
    case (Inl e)
    with s ok show ?thesis by simp
  next
    case (Inr u)
    with s Cons.IH [OF ok] show ?thesis by simp
  qed
qed

lemma registry_ok_initExistingSessions:
  "registry_ok m \<Longrightarrow> registry_ok (initExistingSessions m)"
proof -
  assume r: "registry_ok m"
  let ?m2 = "snd (discover_folder (fst (discover_catalog m)) (snd (discover_catalog m)))"
  have "sessions ?m2 = sessions m"
    by (simp add: discover_folder_fields discover_catalog_fields)
  with r have ok2: "registry_ok ?m2"
    by (simp add: registry_ok_def)
  then have ok3: "registry_ok (snd (restore_all ids ?m2))" for ids
    by (rule registry_ok_restore_all)
  have "sessions (initExistingSessions m) = sessions ?m2
      \<or> (\<exists>ids. sessions (initExistingSessions m) = sessions (snd (restore_all ids ?m2)))"
    by (auto simp: initExistingSessions_def split_beta split: prod.splits sum.splits error.splits)
  then show ?thesis
  proof
    assume "sessions (initExistingSessions m) = sessions ?m2"
    from registry_ok_sessions [OF this] ok2 show ?thesis by simp
  next
    assume "\<exists>ids. sessions (initExistingSessions m) = sessions (snd (restore_all ids ?m2))"
    then obtain ids where "sessions (initExistingSessions m) = sessions (snd (restore_all ids ?m2))"
      by blast
    from registry_ok_sessions [OF this] ok3 [of ids] show ?thesis by simp
  qed
qed

lemma registry_ok_new_manager: "registry_ok (new_manager eng errs w)"
  unfolding new_manager_def
  by (rule registry_ok_initExistingSessions) (simp add: registry_ok_def)

lemma registry_ok_createSession:
  "registry_ok m \<Longrightarrow> registry_ok (snd (createSession sid opts m))"
proof -
  assume r: "registry_ok m"
  show ?thesis
  proof (cases "valid_id sid")
    case False
    then show ?thesis
      using r by (simp add: createSession_def valid_id_def)
  next
    case True
    show ?thesis
    proof (cases "map_of (sessions m) sid")
      case None
      from createSession_fresh(3) [OF True r None] show ?thesis .
    next
      case (Some h)
      from createSession_existing(3) [OF True r Some] show ?thesis .
    qed
  qed
qed

lemma registry_ok_deleteSession:
  "registry_ok m \<Longrightarrow> registry_ok (snd (deleteSession sid m))"
proof -
  assume r: "registry_ok m"
  have "sessions (snd (deleteSession sid m)) = sessions m
        \<or> sessions (snd (deleteSession sid m)) = AList.delete sid (sessions m)"
    by (simp add: deleteSession_def split_beta logout_effect(1) split: option.splits)
  moreover have "distinct (map fst (AList.delete sid (sessions m)))"
    using r by (simp add: registry_ok_def distinct_delete)
  moreover have "set (AList.delete sid (sessions m)) \<subseteq> set (sessions m)"
    by (auto simp: AList.delete_eq)
  ultimately show ?thesis
    using r by (auto simp: registry_ok_def)
qed

end
